theory Spec2Isabelle
  imports Complex_Main "HOL-Library.Sublist"
begin

section \<open>JavaScript values used by the upload code\<close>

text \<open>
  The media upload code of ACWhisk is TypeScript. Strings are modelled as \<open>string\<close>,
  byte counts, pixel counts and millisecond timestamps as \<open>nat\<close>, and the other
  JavaScript numbers (megabytes, scaling ratios, percentages) as \<open>rat\<close>.

  JavaScript numbers are IEEE-754 doubles. Sums, differences and comparisons of
  integers below \<open>2^53\<close>, and the division of a byte count by \<open>1024 * 1024\<close>
  (a power of two), are exact in doubles and are computed exactly here. A quotient or
  product that is not exact is rounded to the nearest double; such an operation is
  written \<open>rnd (a / b)\<close>, \<open>rnd (a * b)\<close>, with the rounding function \<open>rnd\<close> a
  parameter of the model. Theorems that depend on it assume of \<open>rnd\<close> only the usual
  relative error bound of round-to-nearest, \<open>ieee_rounding\<close>.
\<close>

definition unit_roundoff :: rat where
  "unit_roundoff = 1 / 2 ^ 53"

definition ieee_rounding :: "(rat \<Rightarrow> rat) \<Rightarrow> bool" where
  "ieee_rounding rnd \<longleftrightarrow> (\<forall>x. \<bar>rnd x - x\<bar> \<le> \<bar>x\<bar> * unit_roundoff)"

text \<open>The decimal digit \<open>d\<close>, for \<open>d\<close> below ten.\<close>

definition digit_char :: "nat \<Rightarrow> char" where
  "digit_char d = ''0123456789'' ! d"

text \<open>Number-to-string conversion of a non-negative integer (template literals).\<close>

fun string_of_nat :: "nat \<Rightarrow> string" where
  "string_of_nat n =
     (if n < 10 then [digit_char n]
      else string_of_nat (n div 10) @ [digit_char (n mod 10)])"

declare string_of_nat.simps [simp del]

text \<open>
  \<open>Number.prototype.toFixed(1)\<close> on a non-negative number: the integer \<open>n\<close> with
  \<open>n / 10\<close> closest to the number, the larger one on a tie, printed with one digit
  after the point.
\<close>

definition toFixed1 :: "rat \<Rightarrow> string" where
  "toFixed1 x =
     (let n = nat \<lfloor>x * 10 + 1 / 2\<rfloor>
      in string_of_nat (n div 10) @ ''.'' @ [digit_char (n mod 10)])"

text \<open>\<open>String.prototype.split(c)\<close> for a one-character separator.\<close>

fun split_on :: "char \<Rightarrow> string \<Rightarrow> string list" where
  "split_on c [] = [[]]"
| "split_on c (x # xs) =
     (if x = c then [] # split_on c xs
      else (case split_on c xs of p # ps \<Rightarrow> (x # p) # ps | [] \<Rightarrow> [[x]]))"

text \<open>\<open>Array.prototype.join(sep)\<close>.\<close>

fun join :: "string \<Rightarrow> string list \<Rightarrow> string" where
  "join sep [] = []"
| "join sep [x] = x"
| "join sep (x # y # ys) = x @ sep @ join sep (y # ys)"

text \<open>\<open>file.name.split('.').pop()\<close>: the last piece of the name split at dots.\<close>

definition file_extension :: "string \<Rightarrow> string" where
  "file_extension name = last (split_on CHR ''.'' name)"

text \<open>A string is truthy when it is not empty.\<close>

definition truthy :: "string \<Rightarrow> bool" where
  "truthy s \<longleftrightarrow> s \<noteq> []"

text \<open>The fields of a browser \<open>File\<close> that the code reads.\<close>

record js_file =
  file_name :: string
  file_type :: string
  file_size :: nat

section \<open>EnhancedImageUpload (DigitalPortfolio.tsx)\<close>

definition ALLOWED_FILE_TYPES :: "(string \<times> string list) list" where
  "ALLOWED_FILE_TYPES =
     [(''image/jpeg'', [''.jpg'', ''.jpeg'']),
      (''image/png'', [''.png'']),
      (''image/webp'', [''.webp'']),
      (''image/gif'', [''.gif''])]"

definition MAX_FILE_SIZE_MB :: nat where
  "MAX_FILE_SIZE_MB = 10"

text \<open>
  \<open>validateFile\<close>: \<open>None\<close> is the source's \<open>null\<close>. The limit \<open>maxSize\<close> is a number
  of megabytes, \<open>MAX_FILE_SIZE_MB\<close> unless the caller passes another; the model takes a
  whole number of megabytes. The two messages are the source's template literals.
\<close>

definition invalid_type_message :: string where
  "invalid_type_message =
     ''Invalid file type. Please upload ''
     @ join '', '' (concat (map snd ALLOWED_FILE_TYPES)) @ '' files only.''"

definition too_large_message :: "nat \<Rightarrow> rat \<Rightarrow> string" where
  "too_large_message maxSize fileSizeMB =
     ''File size too large. Maximum allowed size is '' @ string_of_nat maxSize
     @ ''MB. Your file is '' @ toFixed1 fileSizeMB @ ''MB.''"

definition validateFile :: "nat \<Rightarrow> js_file \<Rightarrow> string option" where
  "validateFile maxSize f =
     (if file_type f \<notin> set (map fst ALLOWED_FILE_TYPES)
      then Some invalid_type_message
      else
        let fileSizeMB = (of_nat (file_size f) :: rat) / (1024 * 1024)
        in if fileSizeMB > of_nat maxSize
           then Some (too_large_message maxSize fileSizeMB)
           else None)"

record image_metadata =
  originalSize :: nat
  compressedSize :: nat
  dimensions :: "rat \<times> rat"
  format :: string
  compressionRatio :: "rat option"

datatype upload_status = Idle | Uploading | Success | Error

record upload_state =
  status :: upload_status
  progress :: nat
  selected_file :: "js_file option"
  preview :: "string option"
  metadata :: "image_metadata option"
  error :: "string option"

text \<open>
  What one invocation reads from outside the component while it runs: the user of the
  auth context at that moment, the image decoder, the canvas, the clock, the random
  generator, the object store and the caller's \<open>onUpload\<close> callback.
\<close>

record environment =
  session_user_id :: "string option"
  img_dimensions :: "(nat \<times> nat) option"
  has_ctx :: bool
  blob_size :: "nat option"
  date_now :: nat
  random_base36 :: string
  storage_upload :: "string + string"
  storage_public_url :: string
  onUpload_throws :: "string option"

record props =
  bucket :: string
  path :: string
  maxSize :: nat
  has_onError :: bool

text \<open>
  What the functions created by one render of the component close over: the session that
  \<open>useAuth()\<close> returned at that render (\<open>session?.user?.id\<close>) and the properties
  passed at that render.
\<close>

record render =
  render_session :: "string option"
  render_props :: props

text \<open>
  A field of a JSON request body: absent (or \<open>null\<close>), a string, or a value of
  another type, of which only the truthiness matters.
\<close>

datatype json_field = Missing | Text string | NonText bool

text \<open>
  Calls that leave a component or a server route, in the order they are made. The
  arguments of \<open>StorageUpload\<close> are the bucket, the key and the file written.
\<close>

datatype effect =
    CompressImage js_file
  | ToastOptimized image_metadata
  | StorageUpload string string js_file
  | GetPublicUrl string string
  | OnUpload string image_metadata
  | OnError string
  | ToastSuccess string
  | ToastError string
  | ConsoleError string
  | OnImageChange string
  | OnMediaChange string string
  | SetTimeout nat
  | StorageRemove json_field "string list"

text \<open>
  \<open>ui\<close> is the component's \<open>uploadState\<close>, the one piece of state that every
  invocation of \<open>uploadFile\<close> on the component reads and writes. \<open>snapshots\<close> are
  the states that the invocation under consideration has set, and \<open>calls\<close> the calls
  it has made.
\<close>

record run =
  ui :: upload_state
  snapshots :: "upload_state list"
  calls :: "effect list"

text \<open>\<open>useState<UploadState>({ status: 'idle', progress: 0 })\<close>.\<close>

definition idle_state :: upload_state where
  "idle_state = \<lparr>status = Idle, progress = 0, selected_file = None, preview = None,
                 metadata = None, error = None\<rparr>"

definition setUploadState :: "(upload_state \<Rightarrow> upload_state) \<Rightarrow> run \<Rightarrow> run" where
  "setUploadState f r =
     (let s = f (ui r) in r\<lparr>ui := s, snapshots := snapshots r @ [s]\<rparr>)"

definition call :: "effect \<Rightarrow> run \<Rightarrow> run" where
  "call e r = r\<lparr>calls := calls r @ [e]\<rparr>"

subsection \<open>compressImage\<close>

definition maxDimension :: nat where
  "maxDimension = 1920"

text \<open>
  \<open>Math.min(maxDimension / width, maxDimension / height)\<close>. In doubles a positive
  number divided by zero is \<open>+Infinity\<close>, and the minimum with \<open>+Infinity\<close> is the
  other argument.
\<close>

definition scale_ratio :: "(rat \<Rightarrow> rat) \<Rightarrow> nat \<Rightarrow> nat \<Rightarrow> rat" where
  "scale_ratio rnd width height =
     (if width = 0 then rnd (of_nat maxDimension / of_nat height)
      else if height = 0 then rnd (of_nat maxDimension / of_nat width)
      else min (rnd (of_nat maxDimension / of_nat width))
               (rnd (of_nat maxDimension / of_nat height)))"

definition optimal_dimensions :: "(rat \<Rightarrow> rat) \<Rightarrow> nat \<Rightarrow> nat \<Rightarrow> rat \<times> rat" where
  "optimal_dimensions rnd width height =
     (if width > maxDimension \<or> height > maxDimension
      then let ratio = scale_ratio rnd width height
           in (rnd (of_nat width * ratio), rnd (of_nat height * ratio))
      else (of_nat width, of_nat height))"

text \<open>
  Assigning a number to \<open>canvas.width\<close> or \<open>canvas.height\<close> converts it to an
  unsigned integer by dropping the fraction.
\<close>

definition canvas_size :: "rat \<Rightarrow> nat" where
  "canvas_size x = nat \<lfloor>x\<rfloor>"

text \<open>
  \<open>((file.size - compressedFile.size) / file.size) * 100\<close>. For an empty file the
  quotient is \<open>NaN\<close> or \<open>-Infinity\<close>, modelled as \<open>None\<close>.
\<close>

definition compression_ratio :: "(rat \<Rightarrow> rat) \<Rightarrow> nat \<Rightarrow> nat \<Rightarrow> rat option" where
  "compression_ratio rnd original compressed =
     (if original = 0 then None
      else Some (rnd (rnd ((of_nat original - of_nat compressed) / of_nat original) * 100)))"

text \<open>
  \<open>compressImage\<close>: \<open>Inl msg\<close> is the promise rejected with \<open>new Error(msg)\<close>.
  The blob that \<open>canvas.toBlob\<close> produces is known by its size only.
\<close>

definition compressed_result ::
  "(rat \<Rightarrow> rat) \<Rightarrow> js_file \<Rightarrow> rat \<times> rat \<Rightarrow> nat \<Rightarrow> js_file \<times> image_metadata" where
  "compressed_result rnd f dims n =
     (let compressedFile = \<lparr>file_name = file_name f, file_type = file_type f, file_size = n\<rparr>
      in (compressedFile,
          \<lparr>originalSize = file_size f,
           compressedSize = file_size compressedFile,
           dimensions = dims,
           format = file_type f,
           compressionRatio = compression_ratio rnd (file_size f) (file_size compressedFile)\<rparr>))"

definition compressImage ::
  "(rat \<Rightarrow> rat) \<Rightarrow> environment \<Rightarrow> js_file \<Rightarrow> string + (js_file \<times> image_metadata)" where
  "compressImage rnd env f =
     (case img_dimensions env of
        None \<Rightarrow> Inl ''Failed to load image''
      | Some (w, h) \<Rightarrow>
          (let dims = optimal_dimensions rnd w h
           in if \<not> has_ctx env then Inl ''Failed to get canvas context''
              else (case blob_size env of
                      None \<Rightarrow> Inl ''Failed to compress image''
                    | Some n \<Rightarrow> Inr (compressed_result rnd f dims n))))"

text \<open>\<open>metadata.compressionRatio > 10\<close>; a comparison with \<open>NaN\<close> or \<open>-Infinity\<close> is false.\<close>

definition exceeds_10 :: "rat option \<Rightarrow> bool" where
  "exceeds_10 r = (case r of None \<Rightarrow> False | Some x \<Rightarrow> x > 10)"

subsection \<open>uploadFile\<close>

text \<open>
  The key under which the object is written:
  \<open>`${Date.now()}-${Math.random().toString(36).substring(2)}.${fileExt}`\<close>, below
  \<open>path\<close> when the \<open>path\<close> property is not empty. \<open>random_base36\<close> is the string
  \<open>Math.random().toString(36)\<close>.
\<close>

definition enhanced_filePath :: "props \<Rightarrow> environment \<Rightarrow> js_file \<Rightarrow> string" where
  "enhanced_filePath p env f =
     (let fileExt = file_extension (file_name f);
          fileName = string_of_nat (date_now env) @ ''-'' @ drop 2 (random_base36 env)
                     @ ''.'' @ fileExt
      in if truthy (path p) then path p @ ''/'' @ fileName else fileName)"

text \<open>
  The body of the \<open>try\<close> block, in three parts: up to the compression, from there
  to the write to the object store, and from there to the end. \<open>Inl msg\<close> is an
  exception with that message, which the \<open>catch\<close> block receives. The text of the
  "Image optimized!" toast is not modelled, only that it is shown. The function is
  suspended at its two \<open>await\<close>s; \<open>try_start\<close> and \<open>try_before_store\<close> are the
  statements that run up to each of them.
\<close>

definition try_start :: "js_file \<Rightarrow> run \<Rightarrow> run" where
  "try_start f r1 =
     (let r2 = setUploadState (\<lambda>prev. prev\<lparr>progress := 30\<rparr>) r1
      in call (CompressImage f) r2)"

definition try_before_store ::
  "props \<Rightarrow> environment \<Rightarrow> js_file \<Rightarrow> js_file \<Rightarrow> image_metadata \<Rightarrow> run \<Rightarrow> run" where
  "try_before_store p env f compressedFile md r3 =
     (let r4 = (if exceeds_10 (compressionRatio md)
                then call (ToastOptimized md) r3 else r3);
          r5 = setUploadState (\<lambda>prev. prev\<lparr>progress := 50, metadata := Some md\<rparr>) r4;
          filePath = enhanced_filePath p env f;
          r6 = setUploadState (\<lambda>prev. prev\<lparr>progress := 70\<rparr>) r5
      in call (StorageUpload (bucket p) filePath compressedFile) r6)"

definition try_after_upload ::
  "props \<Rightarrow> environment \<Rightarrow> image_metadata \<Rightarrow> string \<Rightarrow> run \<Rightarrow> (string + unit) \<times> run" where
  "try_after_upload p env md data_path r7 =
     (let r8 = setUploadState (\<lambda>prev. prev\<lparr>progress := 90\<rparr>) r7;
          r9 = call (GetPublicUrl (bucket p) data_path) r8;
          publicUrl = storage_public_url env;
          r10 = setUploadState
                  (\<lambda>prev. prev\<lparr>status := Success, progress := 100,
                                preview := Some publicUrl\<rparr>) r9;
          r11 = call (OnUpload publicUrl md) r10
      in (case onUpload_throws env of
            Some e \<Rightarrow> (Inl e, r11)
          | None \<Rightarrow> (Inr (), call (ToastSuccess ''Image uploaded successfully!'') r11)))"

definition try_after_compress ::
  "props \<Rightarrow> environment \<Rightarrow> js_file \<Rightarrow> js_file \<Rightarrow> image_metadata \<Rightarrow> run
     \<Rightarrow> (string + unit) \<times> run" where
  "try_after_compress p env f compressedFile md r3 =
     (let r7 = try_before_store p env f compressedFile md r3
      in (case storage_upload env of
            Inl e \<Rightarrow> (Inl e, r7)
          | Inr data_path \<Rightarrow> try_after_upload p env md data_path r7))"

definition try_block ::
  "(rat \<Rightarrow> rat) \<Rightarrow> props \<Rightarrow> environment \<Rightarrow> js_file \<Rightarrow> run \<Rightarrow> (string + unit) \<times> run" where
  "try_block rnd p env f r1 =
     (let r3 = try_start f r1
      in (case compressImage rnd env f of
            Inl e \<Rightarrow> (Inl e, r3)
          | Inr (compressedFile, md) \<Rightarrow> try_after_compress p env f compressedFile md r3))"

definition catch_block :: "props \<Rightarrow> string \<Rightarrow> run \<Rightarrow> run" where
  "catch_block p e r =
     (let r1 = call (ConsoleError e) r;
          errorMessage = (if truthy e then e else ''Failed to upload image'');
          r2 = setUploadState (\<lambda>prev. prev\<lparr>status := Error, error := Some errorMessage\<rparr>) r1;
          r3 = (if has_onError p then call (OnError errorMessage) r2 else r2)
      in call (ToastError errorMessage) r3)"

text \<open>
  \<open>uploadFile\<close> is an \<open>async\<close> function: it returns a promise, which an exception
  thrown outside the \<open>try\<close> block rejects. It is created anew by every render and
  closes over that render's \<open>session\<close> and properties, which are the parameters
  \<open>sess\<close> and \<open>p\<close> here; the session of \<open>env\<close> is not read.
\<close>

datatype promise = Resolved | Rejected string

definition authenticated :: "string option \<Rightarrow> bool" where
  "authenticated sess = (case sess of None \<Rightarrow> False | Some uid \<Rightarrow> truthy uid)"

definition set_uploading :: "js_file \<Rightarrow> run \<Rightarrow> run" where
  "set_uploading f r0 =
     setUploadState
       (\<lambda>_. \<lparr>status = Uploading, progress = 10, selected_file = Some f,
             preview = None, metadata = None, error = None\<rparr>) r0"

definition try_catch ::
  "(rat \<Rightarrow> rat) \<Rightarrow> props \<Rightarrow> environment \<Rightarrow> js_file \<Rightarrow> run \<Rightarrow> promise \<times> run" where
  "try_catch rnd p env f r0 =
     (let r1 = set_uploading f r0
      in case try_block rnd p env f r1 of
           (Inr _, r) \<Rightarrow> (Resolved, r)
         | (Inl e, r) \<Rightarrow> (Resolved, catch_block p e r))"

text \<open>
  \<open>uploadFile\<close> run from its first statement to its last with nothing else touching
  \<open>uploadState\<close> in between, that is with no other invocation and no reset of the same
  component while it is suspended.
\<close>

definition uploadFile ::
  "(rat \<Rightarrow> rat) \<Rightarrow> string option \<Rightarrow> props \<Rightarrow> environment \<Rightarrow> js_file \<Rightarrow> run
     \<Rightarrow> promise \<times> run" where
  "uploadFile rnd sess p env f r0 =
     (if \<not> authenticated sess then (Rejected ''User not authenticated'', r0)
      else case validateFile (maxSize p) f of
          Some validationError \<Rightarrow>
            if truthy validationError then (Rejected validationError, r0)
            else try_catch rnd p env f r0
        | None \<Rightarrow> try_catch rnd p env f r0)"

text \<open>
  \<open>handleFileSelect = useCallback((files) => { ...; uploadFile(file) }, [])\<close>: the
  dependency list is empty, so the component keeps the function that its first render
  created, and that function calls the \<open>uploadFile\<close> of the first render, with the
  session and the properties of the first render (\<open>first\<close>), whatever they are when the
  file arrives. It drops the promise. The first component of the result is the message
  of a rejection that nothing handles.
\<close>

definition handleFileSelect ::
  "(rat \<Rightarrow> rat) \<Rightarrow> render \<Rightarrow> environment \<Rightarrow> js_file list option \<Rightarrow> run
     \<Rightarrow> string option \<times> run" where
  "handleFileSelect rnd first env files r =
     (case files of
        None \<Rightarrow> (None, r)
      | Some [] \<Rightarrow> (None, r)
      | Some (f # _) \<Rightarrow>
          (case uploadFile rnd (render_session first) (render_props first) env f r of
             (Resolved, r') \<Rightarrow> (None, r')
           | (Rejected e, r') \<Rightarrow> (Some e, r')))"

text \<open>
  \<open>handleDrop\<close> passes the dropped files on unless the component is disabled;
  \<open>disabled\<close> is in its dependency list, so it is the current value. \<open>handleClick\<close>
  opens the file picker, whose \<open>onChange\<close> calls \<open>handleFileSelect\<close>, unless the
  component is disabled or an upload is in flight; its result here is whether
  \<open>fileInputRef.current?.click()\<close> is reached.
\<close>

definition handleDrop ::
  "(rat \<Rightarrow> rat) \<Rightarrow> render \<Rightarrow> bool \<Rightarrow> environment \<Rightarrow> js_file list option \<Rightarrow> run
     \<Rightarrow> string option \<times> run" where
  "handleDrop rnd first disabled env files r =
     (if disabled then (None, r) else handleFileSelect rnd first env files r)"

definition handleClick :: "bool \<Rightarrow> upload_state \<Rightarrow> bool" where
  "handleClick disabled uploadState \<longleftrightarrow> \<not> (disabled \<or> status uploadState = Uploading)"

subsection \<open>Uploads in flight at the same time\<close>

text \<open>
  \<open>uploadFile\<close> cut at its \<open>await\<close>s. An invocation is not started, suspended at
  \<open>await compressImage(file)\<close>, suspended at \<open>await ... upload(...)\<close> (where it holds
  the metadata of the compressed file), or settled. \<open>upload_start\<close> is the function up
  to its first \<open>await\<close>, \<open>upload_after_compress\<close> from there to the second, and
  \<open>upload_after_store\<close> from there to the end.
\<close>

datatype stage = NotStarted | AwaitCompress | AwaitStore image_metadata | Settled promise

definition upload_start :: "string option \<Rightarrow> props \<Rightarrow> js_file \<Rightarrow> run \<Rightarrow> stage \<times> run" where
  "upload_start sess p f r0 =
     (if \<not> authenticated sess then (Settled (Rejected ''User not authenticated''), r0)
      else case validateFile (maxSize p) f of
          Some validationError \<Rightarrow>
            if truthy validationError then (Settled (Rejected validationError), r0)
            else (AwaitCompress, try_start f (set_uploading f r0))
        | None \<Rightarrow> (AwaitCompress, try_start f (set_uploading f r0)))"

definition upload_after_compress ::
  "(rat \<Rightarrow> rat) \<Rightarrow> props \<Rightarrow> environment \<Rightarrow> js_file \<Rightarrow> run \<Rightarrow> stage \<times> run" where
  "upload_after_compress rnd p env f r3 =
     (case compressImage rnd env f of
        Inl e \<Rightarrow> (Settled Resolved, catch_block p e r3)
      | Inr (compressedFile, md) \<Rightarrow> (AwaitStore md, try_before_store p env f compressedFile md r3))"

definition upload_after_store ::
  "props \<Rightarrow> environment \<Rightarrow> image_metadata \<Rightarrow> run \<Rightarrow> stage \<times> run" where
  "upload_after_store p env md r7 =
     (case storage_upload env of
        Inl e \<Rightarrow> (Settled Resolved, catch_block p e r7)
      | Inr data_path \<Rightarrow>
          (case try_after_upload p env md data_path r7 of
             (Inr _, r) \<Rightarrow> (Settled Resolved, r)
           | (Inl e, r) \<Rightarrow> (Settled Resolved, catch_block p e r)))"

text \<open>
  One file dropped on a component: the file, what the world answers to its invocation,
  where the invocation stands, and what it has set and called so far. \<open>advance\<close>
  moves it one step on the component's current \<open>uploadState\<close> and gives the
  \<open>uploadState\<close> it leaves. The first step is the drop: \<open>handleDrop\<close> returns if the
  component is disabled, and otherwise \<open>handleFileSelect\<close> calls the \<open>uploadFile\<close> of
  the first render, which runs to its first \<open>await\<close>. Each later step runs the
  invocation from the \<open>await\<close> it is suspended at to the next one.
\<close>

record invocation =
  inv_env :: environment
  inv_file :: js_file
  inv_stage :: stage
  inv_log :: run

definition dropped :: "environment \<Rightarrow> js_file \<Rightarrow> invocation" where
  "dropped env f =
     \<lparr>inv_env = env, inv_file = f, inv_stage = NotStarted,
      inv_log = \<lparr>ui = idle_state, snapshots = [], calls = []\<rparr>\<rparr>"

definition advance ::
  "(rat \<Rightarrow> rat) \<Rightarrow> render \<Rightarrow> bool \<Rightarrow> upload_state \<Rightarrow> invocation
     \<Rightarrow> upload_state \<times> invocation" where
  "advance rnd first disabled uploadState i =
     (let r = (inv_log i)\<lparr>ui := uploadState\<rparr>;
          p = render_props first
      in case (case inv_stage i of
                 NotStarted \<Rightarrow>
                   if disabled then None
                   else Some (upload_start (render_session first) p (inv_file i) r)
               | AwaitCompress \<Rightarrow> Some (upload_after_compress rnd p (inv_env i) (inv_file i) r)
               | AwaitStore md \<Rightarrow> Some (upload_after_store p (inv_env i) md r)
               | Settled _ \<Rightarrow> None) of
           None \<Rightarrow> (uploadState, i)
         | Some (st, r') \<Rightarrow> (ui r', i\<lparr>inv_stage := st, inv_log := r'\<rparr>))"

text \<open>
  Files dropped on one component, and the order in which things happen: each number in
  the schedule names the file that moves next, by its drop or from the \<open>await\<close> its
  invocation is suspended at. \<open>handleDrop\<close> does not look at \<open>uploadState\<close>, so a
  drop starts an invocation whatever the others are doing.
\<close>

fun interleave ::
  "(rat \<Rightarrow> rat) \<Rightarrow> render \<Rightarrow> bool \<Rightarrow> nat list \<Rightarrow> upload_state \<times> invocation list
     \<Rightarrow> upload_state \<times> invocation list" where
  "interleave rnd first disabled [] c = c"
| "interleave rnd first disabled (k # ks) (uploadState, invs) =
     (if k < length invs
      then (case advance rnd first disabled uploadState (invs ! k) of
              (s, i) \<Rightarrow> interleave rnd first disabled ks (s, invs[k := i]))
      else interleave rnd first disabled ks (uploadState, invs))"

text \<open>
  \<open>renderContent\<close>, in the success state, shows the line "Optimized by N%" when
  \<open>uploadState.metadata && uploadState.metadata.compressionRatio > 0\<close>.
\<close>

definition is_positive :: "rat option \<Rightarrow> bool" where
  "is_positive r = (case r of None \<Rightarrow> False | Some x \<Rightarrow> x > 0)"

definition shows_optimized :: "upload_state \<Rightarrow> bool" where
  "shows_optimized s \<longleftrightarrow>
     status s = Success
     \<and> (case metadata s of None \<Rightarrow> False | Some md \<Rightarrow> is_positive (compressionRatio md))"

text \<open>A run that starts from the state \<open>s\<close> with nothing logged yet.\<close>

definition fresh :: "upload_state \<Rightarrow> run" where
  "fresh s = \<lparr>ui = s, snapshots = [], calls = []\<rparr>"

section \<open>RobustImageUpload, SimpleImageUpload and FixedMediaUpload\<close>

text \<open>
  The three components keep the same pieces of React state. \<open>user\<close> is the
  \<open>session_user_id\<close> of the environment (\<open>None\<close> when nobody is logged in), and
  the caller's callback (\<open>onImageChange\<close>, \<open>onMediaChange\<close>) is its \<open>onUpload_throws\<close>.
  The timer that \<open>finally\<close> starts runs after the invocation and is recorded as a call.
\<close>

record form_state =
  uploading :: bool
  uploadProgress :: nat
  uploadError :: string
  uploadSuccess :: string
  previewMedia :: string
  previewMediaType :: string

record form_run =
  form :: form_state
  progress_log :: "nat list"
  form_calls :: "effect list"

definition setUploading :: "bool \<Rightarrow> form_run \<Rightarrow> form_run" where
  "setUploading b r = r\<lparr>form := (form r)\<lparr>uploading := b\<rparr>\<rparr>"

definition setUploadProgress :: "nat \<Rightarrow> form_run \<Rightarrow> form_run" where
  "setUploadProgress n r =
     r\<lparr>form := (form r)\<lparr>uploadProgress := n\<rparr>, progress_log := progress_log r @ [n]\<rparr>"

definition setUploadError :: "string \<Rightarrow> form_run \<Rightarrow> form_run" where
  "setUploadError e r = r\<lparr>form := (form r)\<lparr>uploadError := e\<rparr>\<rparr>"

definition setUploadSuccess :: "string \<Rightarrow> form_run \<Rightarrow> form_run" where
  "setUploadSuccess m r = r\<lparr>form := (form r)\<lparr>uploadSuccess := m\<rparr>\<rparr>"

definition setPreviewMedia :: "string \<Rightarrow> form_run \<Rightarrow> form_run" where
  "setPreviewMedia u r = r\<lparr>form := (form r)\<lparr>previewMedia := u\<rparr>\<rparr>"

definition setPreviewMediaType :: "string \<Rightarrow> form_run \<Rightarrow> form_run" where
  "setPreviewMediaType t r = r\<lparr>form := (form r)\<lparr>previewMediaType := t\<rparr>\<rparr>"

definition form_call :: "effect \<Rightarrow> form_run \<Rightarrow> form_run" where
  "form_call e r = r\<lparr>form_calls := form_calls r @ [e]\<rparr>"

definition validTypes :: "string list" where
  "validTypes = [''image/jpeg'', ''image/jpg'', ''image/png'', ''image/gif'', ''image/webp'']"

definition videoTypes :: "string list" where
  "videoTypes = [''video/mp4'', ''video/webm'', ''video/ogg'', ''video/quicktime'']"

text \<open>
  \<open>`${user.id}/${timestamp}-${randomId}.${fileExtension}`\<close> with
  \<open>randomId = Math.random().toString(36).substring(7)\<close>, the same in the three
  components.
\<close>

definition client_fileName :: "string \<Rightarrow> environment \<Rightarrow> js_file \<Rightarrow> string" where
  "client_fileName uid env f =
     uid @ ''/'' @ string_of_nat (date_now env) @ ''-'' @ drop 7 (random_base36 env)
     @ ''.'' @ file_extension (file_name f)"

definition bucketName_of :: "string \<Rightarrow> string" where
  "bucketName_of b = ''make-cfac176d-'' @ b"

subsection \<open>RobustImageUpload.handleFileUpload\<close>

definition robust_after_upload ::
  "string \<Rightarrow> string \<Rightarrow> environment \<Rightarrow> form_run \<Rightarrow> (string + unit) \<times> form_run" where
  "robust_after_upload bucketName fileName env r3 =
     (let r4 = setUploadProgress 90 r3;
          r5 = form_call (GetPublicUrl bucketName fileName) r4
      in if \<not> truthy (storage_public_url env) then (Inl ''Failed to get image URL'', r5)
         else
           let r6 = setUploadProgress 100 r5;
               r7 = setPreviewMedia (storage_public_url env) r6;
               r8 = form_call (OnImageChange (storage_public_url env)) r7
           in (case onUpload_throws env of
                 Some e \<Rightarrow> (Inl e, r8)
               | None \<Rightarrow> (Inr (), setUploadSuccess ''Image uploaded successfully!'' r8)))"

definition robust_try ::
  "string \<Rightarrow> string \<Rightarrow> environment \<Rightarrow> js_file \<Rightarrow> form_run \<Rightarrow> (string + unit) \<times> form_run" where
  "robust_try uid b env f r0 =
     (let fileName = client_fileName uid env f;
          bucketName = bucketName_of b;
          r1 = setUploadProgress 30 r0;
          r2 = setUploadProgress 50 r1;
          r3 = form_call (StorageUpload bucketName fileName f) r2
      in (case storage_upload env of
            Inl msg \<Rightarrow> (Inl (''Upload failed: '' @ msg), form_call (ConsoleError msg) r3)
          | Inr _ \<Rightarrow> robust_after_upload bucketName fileName env r3))"

definition robust_handleFileUpload ::
  "nat \<Rightarrow> string \<Rightarrow> environment \<Rightarrow> js_file \<Rightarrow> form_run \<Rightarrow> form_run" where
  "robust_handleFileUpload maxSizeMB b env f r =
     (case session_user_id env of
        None \<Rightarrow> setUploadError ''You must be logged in to upload images'' r
      | Some uid \<Rightarrow>
          if file_type f \<notin> set validTypes
          then setUploadError ''Please upload a valid image file (JPEG, PNG, GIF, WebP)'' r
          else if file_size f > maxSizeMB * 1024 * 1024
          then setUploadError (''File size must be less than '' @ string_of_nat maxSizeMB @ ''MB'') r
          else
            let r0 = setUploadProgress 0
                       (setUploadSuccess [] (setUploadError [] (setUploading True r)));
                r1 = (case robust_try uid b env f r0 of
                        (Inr _, r') \<Rightarrow> r'
                      | (Inl e, r') \<Rightarrow> setUploadError e (form_call (ConsoleError e) r'))
            in form_call (SetTimeout 2000) (setUploading False r1))"

subsection \<open>SimpleImageUpload.handleFileUpload\<close>

definition simple_after_upload ::
  "string \<Rightarrow> string \<Rightarrow> environment \<Rightarrow> form_run \<Rightarrow> (string + unit) \<times> form_run" where
  "simple_after_upload bucketName fileName env r4 =
     (let r5 = form_call (GetPublicUrl bucketName fileName) r4
      in if truthy (storage_public_url env)
         then
           let r6 = setUploadProgress 100 r5;
               r7 = setPreviewMedia (storage_public_url env) r6;
               r8 = form_call (OnImageChange (storage_public_url env)) r7
           in (case onUpload_throws env of Some e \<Rightarrow> (Inl e, r8) | None \<Rightarrow> (Inr (), r8))
         else (Inr (), setUploadError ''Failed to get image URL'' r5))"

definition simple_try ::
  "string \<Rightarrow> string \<Rightarrow> environment \<Rightarrow> js_file \<Rightarrow> form_run \<Rightarrow> (string + unit) \<times> form_run" where
  "simple_try uid b env f r0 =
     (let r1 = setUploadProgress 30 r0;
          fileName = client_fileName uid env f;
          bucketName = bucketName_of b;
          r2 = setUploadProgress 50 r1;
          r3 = form_call (StorageUpload bucketName fileName f) r2;
          r4 = setUploadProgress 90 r3
      in (case storage_upload env of
            Inl msg \<Rightarrow>
              (Inr (), setUploadError ''Failed to upload image. Please try again.''
                         (form_call (ConsoleError msg) r4))
          | Inr _ \<Rightarrow> simple_after_upload bucketName fileName env r4))"

definition simple_handleFileUpload ::
  "nat \<Rightarrow> string \<Rightarrow> environment \<Rightarrow> js_file \<Rightarrow> form_run \<Rightarrow> form_run" where
  "simple_handleFileUpload maxSizeMB b env f r =
     (case session_user_id env of
        None \<Rightarrow> setUploadError ''You must be logged in to upload images'' r
      | Some uid \<Rightarrow>
          if file_type f \<notin> set validTypes
          then setUploadError ''Please upload a valid image file (JPEG, PNG, GIF, WebP)'' r
          else if file_size f > maxSizeMB * 1024 * 1024
          then setUploadError (''File size must be less than '' @ string_of_nat maxSizeMB @ ''MB'') r
          else
            let r0 = setUploadProgress 0 (setUploadError [] (setUploading True r));
                r1 = (case simple_try uid b env f r0 of
                        (Inr _, r') \<Rightarrow> r'
                      | (Inl e, r') \<Rightarrow>
                          setUploadError ''An unexpected error occurred during upload''
                            (form_call (ConsoleError e) r'))
            in form_call (SetTimeout 1000) (setUploading False r1))"

subsection \<open>FixedMediaUpload.handleFileUpload\<close>

text \<open>\<open>maxSizeMB\<close> is optional here: \<open>None\<close> is \<open>undefined\<close>, and \<open>0\<close> is falsy.\<close>

record media_props =
  media_bucket :: string
  allowVideo :: bool
  allowImage :: bool
  media_maxSizeMB :: "nat option"

definition maxSizeMB_given :: "media_props \<Rightarrow> bool" where
  "maxSizeMB_given mp = (case media_maxSizeMB mp of None \<Rightarrow> False | Some n \<Rightarrow> n \<noteq> 0)"

definition getMaxSize :: "media_props \<Rightarrow> nat" where
  "getMaxSize mp =
     (if maxSizeMB_given mp then the (media_maxSizeMB mp) * 1024 * 1024
      else if allowVideo mp then 50 * 1024 * 1024 else 10 * 1024 * 1024)"

definition getAcceptedTypes :: "media_props \<Rightarrow> string list" where
  "getAcceptedTypes mp =
     (if allowImage mp then validTypes else []) @ (if allowVideo mp then videoTypes else [])"

definition getFileTypeDescription :: "media_props \<Rightarrow> string" where
  "getFileTypeDescription mp =
     join '' or ''
       ((if allowImage mp then [''Images (JPEG, PNG, GIF, WebP)''] else [])
        @ (if allowVideo mp then [''Videos (MP4, WebM, OGG, MOV)''] else []))"

definition is_video :: "js_file \<Rightarrow> bool" where
  "is_video f = prefix ''video/'' (file_type f)"

definition fixed_after_upload ::
  "string \<Rightarrow> string \<Rightarrow> environment \<Rightarrow> js_file \<Rightarrow> form_run \<Rightarrow> (string + unit) \<times> form_run" where
  "fixed_after_upload bucketName fileName env f r3 =
     (let r4 = setUploadProgress 95 r3;
          r5 = form_call (GetPublicUrl bucketName fileName) r4
      in if \<not> truthy (storage_public_url env) then (Inl ''Failed to get file URL'', r5)
         else
           let r6 = setUploadProgress 100 r5;
               fileType = (if is_video f then ''video'' else ''image'');
               r7 = setPreviewMediaType fileType (setPreviewMedia (storage_public_url env) r6);
               r8 = form_call (OnMediaChange (storage_public_url env) fileType) r7
           in (case onUpload_throws env of
                 Some e \<Rightarrow> (Inl e, r8)
               | None \<Rightarrow> (Inr (), setUploadSuccess ''File uploaded successfully!'' r8)))"

definition fixed_try ::
  "string \<Rightarrow> string \<Rightarrow> environment \<Rightarrow> js_file \<Rightarrow> form_run \<Rightarrow> (string + unit) \<times> form_run" where
  "fixed_try uid b env f r0 =
     (let fileName = client_fileName uid env f;
          bucketName = bucketName_of b;
          r1 = setUploadProgress 20 r0;
          r2 = setUploadProgress 40 r1;
          r3 = form_call (StorageUpload bucketName fileName f) r2
      in (case storage_upload env of
            Inl msg \<Rightarrow> (Inl (''Upload failed: '' @ msg), form_call (ConsoleError msg) r3)
          | Inr _ \<Rightarrow> fixed_after_upload bucketName fileName env f r3))"

definition fixed_handleFileUpload ::
  "media_props \<Rightarrow> environment \<Rightarrow> js_file \<Rightarrow> form_run \<Rightarrow> form_run" where
  "fixed_handleFileUpload mp env f r =
     (case session_user_id env of
        None \<Rightarrow> setUploadError ''You must be logged in to upload files'' r
      | Some uid \<Rightarrow>
          if file_type f \<notin> set (getAcceptedTypes mp)
          then setUploadError (''Please upload a valid file: '' @ getFileTypeDescription mp) r
          else
            let sizeLimitMB = (if maxSizeMB_given mp then the (media_maxSizeMB mp)
                               else if is_video f then 50 else 10)
            in if file_size f > getMaxSize mp
               then setUploadError
                      (''File size must be less than '' @ string_of_nat sizeLimitMB @ ''MB'') r
               else
                 let r0 = setUploadProgress 0
                            (setUploadSuccess [] (setUploadError [] (setUploading True r)));
                     r1 = (case fixed_try uid (media_bucket mp) env f r0 of
                             (Inr _, r') \<Rightarrow> r'
                           | (Inl e, r') \<Rightarrow> setUploadError e (form_call (ConsoleError e) r'))
                 in form_call (SetTimeout 1000) (setUploading False r1))"

section \<open>Server routes (the edge function)\<close>

text \<open>
  A response is the JSON object passed to \<open>c.json\<close> and the HTTP status. What a
  route reads from outside: the auth service (\<open>supabase.auth.getUser\<close>, giving the
  user's id and an error), the clock, \<open>crypto.randomUUID()\<close>, and the results of
  the object store's \<open>upload\<close>, \<open>getPublicUrl\<close> and \<open>remove\<close>.
\<close>

datatype json = JString string | JNumber nat | JBool bool

type_synonym response = "(string \<times> json) list \<times> nat"

record server_env =
  auth_getUser :: "string \<Rightarrow> string option \<times> string option"
  server_now :: nat
  randomUUID :: string
  upload_error :: "string option"
  publicUrl_result :: string
  remove_error :: "string option"

definition error_response :: "string \<Rightarrow> nat \<Rightarrow> response" where
  "error_response msg code = ([(''error'', JString msg)], code)"

text \<open>
  \<open>getUserFromToken\<close>: the token is the second piece of the \<open>Authorization\<close>
  header split at spaces.
\<close>

definition getUserFromToken :: "server_env \<Rightarrow> string option \<Rightarrow> string option \<times> string option" where
  "getUserFromToken senv authorization =
     (let accessToken =
            (case authorization of
               None \<Rightarrow> None
             | Some h \<Rightarrow> (case split_on CHR '' '' h of _ # t # _ \<Rightarrow> Some t | _ \<Rightarrow> None))
      in (case accessToken of
            None \<Rightarrow> (None, Some ''No token provided'')
          | Some t \<Rightarrow>
              if \<not> truthy t then (None, Some ''No token provided'')
              else auth_getUser senv t))"

text \<open>\<open>error || "Unauthorized"\<close>.\<close>

definition unauthorized_response :: "string option \<Rightarrow> response" where
  "unauthorized_response err =
     error_response (case err of None \<Rightarrow> ''Unauthorized''
                     | Some e \<Rightarrow> if truthy e then e else ''Unauthorized'') 401"

text \<open>
  A multipart request: \<open>form_file = None\<close> when \<open>c.req.formData()\<close> throws,
  \<open>Some None\<close> when the form has no \<open>file\<close> field.
\<close>

record upload_request =
  authorization :: "string option"
  bucket_param :: string
  form_file :: "js_file option option"

definition validBuckets :: "string list" where
  "validBuckets = [''recipes'', ''profiles'', ''forums'', ''resources'', ''chat-media'']"

subsection \<open>POST /upload/:bucket\<close>

definition server_fileName :: "string \<Rightarrow> server_env \<Rightarrow> js_file \<Rightarrow> string" where
  "server_fileName uid senv f =
     (let isVideo = file_type f \<in> set videoTypes;
          fileExtension = file_extension (file_name f);
          randomId = take 8 (randomUUID senv);
          optimizedExtension = (if file_type f = ''image/webp'' then ''webp'' else fileExtension)
      in uid @ ''/'' @ (if isVideo then ''videos'' else ''images'') @ ''/''
         @ string_of_nat (server_now senv) @ ''-'' @ randomId @ ''.'' @ optimizedExtension)"

definition store_file ::
  "string \<Rightarrow> string \<Rightarrow> server_env \<Rightarrow> js_file \<Rightarrow> response \<times> effect list" where
  "store_file uid b senv f =
     (let isVideo = file_type f \<in> set videoTypes;
          fileName = server_fileName uid senv f;
          bucketName = bucketName_of b;
          put = StorageUpload bucketName fileName f
      in (case upload_error senv of
            Some e \<Rightarrow> (error_response ''Failed to upload file'' 500, [put])
          | None \<Rightarrow>
              if \<not> truthy (publicUrl_result senv)
              then (error_response ''Failed to create access URL'' 500,
                    [put, GetPublicUrl bucketName fileName])
              else (([(''fileName'', JString fileName),
                      (''url'', JString (publicUrl_result senv)),
                      (''bucket'', JString bucketName),
                      (''fileType'', JString (if isVideo then ''video'' else ''image'')),
                      (''fileSize'', JNumber (file_size f)),
                      (''mimeType'', JString (file_type f)),
                      (''isOptimized'',
                         JBool (file_type f = ''image/webp'' \<and> file_size f < 2 * 1024 * 1024))],
                     200),
                    [put, GetPublicUrl bucketName fileName])))"

definition upload_route :: "server_env \<Rightarrow> upload_request \<Rightarrow> response \<times> effect list" where
  "upload_route senv req =
     (case getUserFromToken senv (authorization req) of
        (None, err) \<Rightarrow> (unauthorized_response err, [])
      | (Some uid, _) \<Rightarrow>
          if bucket_param req \<notin> set validBuckets then (error_response ''Invalid bucket'' 400, [])
          else (case form_file req of
                  None \<Rightarrow> (error_response ''Internal server error during file upload'' 500, [])
                | Some None \<Rightarrow> (error_response ''No file provided'' 400, [])
                | Some (Some f) \<Rightarrow>
                    if file_type f \<notin> set (validTypes @ videoTypes)
                    then (error_response
                            (''Invalid file type. Please upload an image (JPEG, PNG, GIF, WebP) ''
                             @ ''or video (MP4, WebM, OGG, MOV).'') 400, [])
                    else
                      let isVideo = file_type f \<in> set videoTypes;
                          maxSize = (if isVideo then 50 * 1024 * 1024 else 5 * 1024 * 1024)
                      in if file_size f > maxSize
                         then (error_response
                                 (''File size must be less than ''
                                  @ (if isVideo then ''50MB'' else ''5MB'')) 400, [])
                         else store_file uid (bucket_param req) senv f))"

subsection \<open>POST /upload-image (legacy)\<close>

definition upload_image_route :: "server_env \<Rightarrow> upload_request \<Rightarrow> response \<times> effect list" where
  "upload_image_route senv req =
     (case getUserFromToken senv (authorization req) of
        (None, err) \<Rightarrow> (unauthorized_response err, [])
      | (Some uid, _) \<Rightarrow>
          (case form_file req of
             None \<Rightarrow> (error_response ''Internal server error during image upload'' 500, [])
           | Some None \<Rightarrow> (error_response ''No file provided'' 400, [])
           | Some (Some f) \<Rightarrow>
               if file_type f \<notin> set validTypes
               then (error_response ''Invalid file type. Please upload an image.'' 400, [])
               else if file_size f > 10 * 1024 * 1024
               then (error_response ''File size must be less than 10MB'' 400, [])
               else
                 let fileName = uid @ ''/'' @ string_of_nat (server_now senv) @ ''-'' @ file_name f;
                     bucketName = ''make-cfac176d-recipes'';
                     put = StorageUpload bucketName fileName f
                 in (case upload_error senv of
                       Some e \<Rightarrow> (error_response ''Failed to upload image'' 500, [put])
                     | None \<Rightarrow>
                         if \<not> truthy (publicUrl_result senv)
                         then (error_response ''Failed to create access URL'' 500,
                               [put, GetPublicUrl bucketName fileName])
                         else (([(''url'', JString (publicUrl_result senv)),
                                 (''fileName'', JString fileName),
                                 (''bucket'', JString bucketName),
                                 (''fileType'', JString ''image'')], 200),
                               [put, GetPublicUrl bucketName fileName]))))"

subsection \<open>DELETE /delete-file\<close>




section \<open>Vocabulary of the properties and sample inputs\<close>

text \<open>
  The ratio that brings the larger of two dimensions to \<open>maxDimension\<close> exactly.
\<close>

definition ideal_ratio :: "nat \<Rightarrow> nat \<Rightarrow> rat" where
  "ideal_ratio w h = of_nat maxDimension / of_nat (max w h)"

definition example_props :: props where
  "example_props = \<lparr>bucket = ''recipe-images'', path = ''recipes'', maxSize = 10, has_onError = True\<rparr>"

definition example_env :: environment where
  "example_env =
     \<lparr>session_user_id = Some ''user-1'', img_dimensions = Some (4000, 3000), has_ctx = True,
      blob_size = Some 1048576, date_now = 1700000000000, random_base36 = ''0.k3j2x9a7bq'',
      storage_upload = Inr ''recipes/1700000000000-k3j2x9a7bq.jpg'',
      storage_public_url = ''https://store.example/recipes/1700000000000-k3j2x9a7bq.jpg'',
      onUpload_throws = None\<rparr>"

definition example_file :: js_file where
  "example_file = \<lparr>file_name = ''dish.jpg'', file_type = ''image/jpeg'', file_size = 2097152\<rparr>"

definition example_compressed :: js_file where
  "example_compressed = \<lparr>file_name = ''dish.jpg'', file_type = ''image/jpeg'', file_size = 1048576\<rparr>"

definition example_metadata :: image_metadata where
  "example_metadata =
     \<lparr>originalSize = 2097152, compressedSize = 1048576, dimensions = (1920, 1440),
      format = ''image/jpeg'', compressionRatio = Some 50\<rparr>"

definition small_env :: environment where
  "small_env = example_env\<lparr>img_dimensions := Some (800, 600)\<rparr>"

definition small_metadata :: image_metadata where
  "small_metadata = example_metadata\<lparr>dimensions := (800, 600)\<rparr>"

text \<open>The status and progress of each snapshot of a run, in order.\<close>

definition trace :: "run \<Rightarrow> (upload_status \<times> nat) list" where
  "trace r = map (\<lambda>s. (status s, progress s)) (snapshots r)"

text \<open>
  The snapshot sequences of an invocation that passed the authentication and validation
  guards: compression failed, the store rejected the write, success, and success followed
  by an exception of the caller's \<open>onUpload\<close>.
\<close>

definition possible_traces :: "(upload_status \<times> nat) list set" where
  "possible_traces =
     {[(Uploading, 10), (Uploading, 30), (Error, 30)],
      [(Uploading, 10), (Uploading, 30), (Uploading, 50), (Uploading, 70), (Error, 70)],
      [(Uploading, 10), (Uploading, 30), (Uploading, 50), (Uploading, 70), (Uploading, 90),
       (Success, 100)],
      [(Uploading, 10), (Uploading, 30), (Uploading, 50), (Uploading, 70), (Uploading, 90),
       (Success, 100), (Error, 100)]}"

text \<open>The calls of each part of \<open>uploadFile\<close>, as lists.\<close>

definition upload_calls :: "props \<Rightarrow> environment \<Rightarrow> image_metadata \<Rightarrow> string \<Rightarrow> effect list" where
  "upload_calls p env md dp =
     [GetPublicUrl (bucket p) dp, OnUpload (storage_public_url env) md]
     @ (case onUpload_throws env of Some e \<Rightarrow> []
        | None \<Rightarrow> [ToastSuccess ''Image uploaded successfully!''])"

definition compress_calls ::
  "props \<Rightarrow> environment \<Rightarrow> js_file \<Rightarrow> js_file \<Rightarrow> image_metadata \<Rightarrow> effect list" where
  "compress_calls p env f cf md =
     (if exceeds_10 (compressionRatio md) then [ToastOptimized md] else [])
     @ [StorageUpload (bucket p) (enhanced_filePath p env f) cf]
     @ (case storage_upload env of Inl e \<Rightarrow> [] | Inr dp \<Rightarrow> upload_calls p env md dp)"

definition try_calls :: "(rat \<Rightarrow> rat) \<Rightarrow> props \<Rightarrow> environment \<Rightarrow> js_file \<Rightarrow> effect list" where
  "try_calls rnd p env f =
     CompressImage f
     # (case compressImage rnd env f of Inl e \<Rightarrow> []
        | Inr c \<Rightarrow> compress_calls p env f (fst c) (snd c))"

definition catch_calls :: "props \<Rightarrow> string \<Rightarrow> effect list" where
  "catch_calls p e =
     (let errorMessage = (if truthy e then e else ''Failed to upload image'')
      in [ConsoleError e] @ (if has_onError p then [OnError errorMessage] else [])
         @ [ToastError errorMessage])"

definition guest_env :: environment where
  "guest_env = example_env\<lparr>session_user_id := None\<rparr>"

text \<open>
  A first render with the session of user-1, as the recipe form mounts the component for
  a logged-in user, and a first render without a session.
\<close>

definition example_render :: render where
  "example_render = \<lparr>render_session = Some ''user-1'', render_props = example_props\<rparr>"

definition guest_render :: render where
  "guest_render = \<lparr>render_session = None, render_props = example_props\<rparr>"

text \<open>
  An invocation started by \<open>handleFileSelect\<close> fails with the message \<open>m\<close>: its promise
  is rejected with \<open>m\<close>, or it sets the error state with \<open>m\<close>.
\<close>

definition failed_with :: "string option \<times> run \<Rightarrow> string \<Rightarrow> bool" where
  "failed_with res m \<longleftrightarrow>
     fst res = Some m
     \<or> (Error, Some m) \<in> set (map (\<lambda>s. (status s, error s)) (snapshots (snd res)))"

text \<open>The calls that compress the image or reach the object store.\<close>

fun pipeline_call :: "effect \<Rightarrow> bool" where
  "pipeline_call (CompressImage _) = True"
| "pipeline_call (StorageUpload _ _ _) = True"
| "pipeline_call (GetPublicUrl _ _) = True"
| "pipeline_call (StorageRemove _ _) = True"
| "pipeline_call _ = False"

definition offline_env :: environment where
  "offline_env = example_env\<lparr>storage_upload := Inl ''Failed to fetch''\<rparr>"

definition pdf_file :: js_file where
  "pdf_file = \<lparr>file_name = ''menu.pdf'', file_type = ''application/pdf'', file_size = 1000\<rparr>"

definition big_png :: js_file where
  "big_png = \<lparr>file_name = ''photo.png'', file_type = ''image/png'', file_size = 11534336\<rparr>"

text \<open>
  Two files dropped on one component that shows the idle state: \<open>dish.jpg\<close>, whose
  write the store will refuse, and \<open>soup.jpg\<close>.
\<close>

definition second_file :: js_file where
  "second_file = \<lparr>file_name = ''soup.jpg'', file_type = ''image/jpeg'', file_size = 3145728\<rparr>"

definition two_drops :: "upload_state \<times> invocation list" where
  "two_drops = (idle_state, [dropped offline_env example_file, dropped example_env second_file])"

text \<open>The calls of a run of \<open>RobustImageUpload.handleFileUpload\<close> that got past its guards.\<close>

definition robust_calls :: "string \<Rightarrow> string \<Rightarrow> environment \<Rightarrow> js_file \<Rightarrow> effect list" where
  "robust_calls uid b env f =
     StorageUpload (bucketName_of b) (client_fileName uid env f) f
     # (case storage_upload env of
          Inl msg \<Rightarrow> [ConsoleError msg, ConsoleError (''Upload failed: '' @ msg)]
        | Inr _ \<Rightarrow>
            GetPublicUrl (bucketName_of b) (client_fileName uid env f)
            # (if \<not> truthy (storage_public_url env) then [ConsoleError ''Failed to get image URL'']
               else OnImageChange (storage_public_url env)
                    # (case onUpload_throws env of Some e \<Rightarrow> [ConsoleError e] | None \<Rightarrow> [])))
     @ [SetTimeout 2000]"

text \<open>Reading a decimal numeral back, to say what a printed number denotes.\<close>

definition digit_value :: "char \<Rightarrow> nat" where
  "digit_value c = of_char c - 48"

definition nat_of_string :: "string \<Rightarrow> nat" where
  "nat_of_string s = foldl (\<lambda>a c. 10 * a + digit_value c) 0 s"

text \<open>More sample inputs: component state, random draws, a renamed file, requests.\<close>

definition idle_form :: form_run where
  "idle_form =
     \<lparr>form = \<lparr>uploading = False, uploadProgress = 0, uploadError = [], uploadSuccess = [],
               previewMedia = [], previewMediaType = ''image''\<rparr>,
      progress_log = [], form_calls = []\<rparr>"

definition half_env :: environment where
  "half_env = example_env\<lparr>random_base36 := ''0.i''\<rparr>"

definition quarter_env :: environment where
  "quarter_env = example_env\<lparr>random_base36 := ''0.9''\<rparr>"

definition renamed_file :: js_file where
  "renamed_file = \<lparr>file_name = ''photo.png'', file_type = ''image/jpeg'', file_size = 2097152\<rparr>"

definition renamed_env :: environment where
  "renamed_env =
     example_env\<lparr>storage_upload := Inr ''recipes/1700000000000-k3j2x9a7bq.png'',
                 storage_public_url := ''https://store.example/recipes/1700000000000-k3j2x9a7bq.png''\<rparr>"

definition renamed_compressed :: js_file where
  "renamed_compressed = \<lparr>file_name = ''photo.png'', file_type = ''image/jpeg'', file_size = 1048576\<rparr>"

definition example_media_props :: media_props where
  "example_media_props =
     \<lparr>media_bucket = ''forums'', allowVideo = True, allowImage = True, media_maxSizeMB = None\<rparr>"

definition example_server :: server_env where
  "example_server =
     \<lparr>auth_getUser = (\<lambda>t. if t = ''token-1'' then (Some ''user-1'', None)
                          else (None, Some ''invalid JWT'')),
      server_now = 1700000000000,
      randomUUID = ''3f2a9c1e-7b4d-4e8a-9f00-1234567890ab'',
      upload_error = None,
      publicUrl_result = ''https://store.example/object'',
      remove_error = None\<rparr>"

definition example_request :: upload_request where
  "example_request =
     \<lparr>authorization = Some ''Bearer token-1'', bucket_param = ''recipes'',
      form_file = Some (Some example_file)\<rparr>"

definition guest_request :: upload_request where
  "guest_request = \<lparr>authorization = None, bucket_param = ''recipes'',
                     form_file = Some (Some pdf_file)\<rparr>"




definition modest_env :: environment where
  "modest_env = example_env\<lparr>blob_size := Some 1966080\<rparr>"

definition modest_compressed :: js_file where
  "modest_compressed = \<lparr>file_name = ''dish.jpg'', file_type = ''image/jpeg'', file_size = 1966080\<rparr>"

definition modest_metadata :: image_metadata where
  "modest_metadata =
     \<lparr>originalSize = 2097152, compressedSize = 1966080, dimensions = (1920, 1440),
      format = ''image/jpeg'', compressionRatio = Some (25 / 4)\<rparr>"

section \<open>Rounding and the scaled dimensions\<close>

lemma rnd_upper: "ieee_rounding rnd \<Longrightarrow> 0 \<le> x \<Longrightarrow> rnd x \<le> x * (1 + unit_roundoff)"
proof -
  assume a: "ieee_rounding rnd" and x: "0 \<le> x"
  from a have "\<bar>rnd x - x\<bar> \<le> \<bar>x\<bar> * unit_roundoff" by (simp add: ieee_rounding_def)
  with x show ?thesis by (simp add: abs_le_iff algebra_simps)
qed

lemma rnd_lower: "ieee_rounding rnd \<Longrightarrow> 0 \<le> x \<Longrightarrow> x * (1 - unit_roundoff) \<le> rnd x"
proof -
  assume a: "ieee_rounding rnd" and x: "0 \<le> x"
  from a have "\<bar>rnd x - x\<bar> \<le> \<bar>x\<bar> * unit_roundoff" by (simp add: ieee_rounding_def)
  with x show ?thesis by (simp add: abs_le_iff algebra_simps)
qed

lemma unit_roundoff_bounds: "0 < unit_roundoff" "unit_roundoff < 1"
  by (simp_all add: unit_roundoff_def)

lemma scale_ratio_upper:
  assumes r: "ieee_rounding rnd" and big: "w > maxDimension \<or> h > maxDimension"
  shows "scale_ratio rnd w h \<le> ideal_ratio w h * (1 + unit_roundoff)"
proof -
  have pos: "0 < max w h" using big by auto
  have up: "\<And>d. rnd (of_nat maxDimension / of_nat d) \<le> of_nat maxDimension / of_nat d * (1 + unit_roundoff)"
    using r by (intro rnd_upper) simp_all
  show ?thesis
  proof (cases "h \<le> w")
    case True
    then have m: "max w h = w" by simp
    have w0: "w \<noteq> 0" using pos m by simp
    have "scale_ratio rnd w h \<le> rnd (of_nat maxDimension / of_nat w)"
      using w0 by (simp add: scale_ratio_def)
    also note up
    finally show ?thesis by (simp add: ideal_ratio_def m)
  next
    case False
    then have m: "max w h = h" by simp
    have h0: "h \<noteq> 0" using pos m by simp
    have "scale_ratio rnd w h \<le> rnd (of_nat maxDimension / of_nat h)"
      using h0 by (simp add: scale_ratio_def)
    also note up
    finally show ?thesis by (simp add: ideal_ratio_def m)
  qed
qed

lemma scale_ratio_lower:
  assumes r: "ieee_rounding rnd" and big: "w > maxDimension \<or> h > maxDimension"
  shows "ideal_ratio w h * (1 - unit_roundoff) \<le> scale_ratio rnd w h"
proof -
  have pos: "0 < max w h" using big by auto
  have lo: "\<And>d. of_nat maxDimension / of_nat d * (1 - unit_roundoff) \<le> rnd (of_nat maxDimension / of_nat d)"
    using r by (intro rnd_lower) simp_all
  have mono: "\<And>d. 0 < d \<Longrightarrow> d \<le> max w h \<Longrightarrow> ideal_ratio w h * (1 - unit_roundoff) \<le> of_nat maxDimension / of_nat d * (1 - unit_roundoff)"
  proof -
    fix d :: nat assume d: "0 < d" "d \<le> max w h"
    have "(of_nat maxDimension :: rat) / of_nat (max w h) \<le> of_nat maxDimension / of_nat d"
      using d by (intro divide_left_mono) simp_all
    then show "ideal_ratio w h * (1 - unit_roundoff) \<le> of_nat maxDimension / of_nat d * (1 - unit_roundoff)"
      unfolding ideal_ratio_def using unit_roundoff_bounds by (intro mult_right_mono) simp_all
  qed
  have each: "\<And>d. 0 < d \<Longrightarrow> d \<le> max w h \<Longrightarrow> ideal_ratio w h * (1 - unit_roundoff) \<le> rnd (of_nat maxDimension / of_nat d)"
    using mono lo by (meson order_trans)
  show ?thesis
    using each[of w] each[of h] pos by (auto simp: scale_ratio_def min_def)
qed

lemma ideal_ratio_times_le:
  assumes big: "w > maxDimension \<or> h > maxDimension" and d: "d \<le> max w h"
  shows "0 \<le> of_nat d * ideal_ratio w h" "of_nat d * ideal_ratio w h \<le> of_nat maxDimension"
proof -
  have pos: "0 < max w h" using big by auto
  show "0 \<le> of_nat d * ideal_ratio w h" by (simp add: ideal_ratio_def)
  have "(of_nat d :: rat) \<le> of_nat (max w h)" using d by (simp only: of_nat_le_iff)
  then have "(of_nat d :: rat) / of_nat (max w h) \<le> 1" using pos by (simp add: divide_le_eq)
  then have "(of_nat d :: rat) / of_nat (max w h) * of_nat maxDimension \<le> 1 * of_nat maxDimension"
    by (intro mult_right_mono) simp_all
  then show "of_nat d * ideal_ratio w h \<le> of_nat maxDimension"
    by (simp add: ideal_ratio_def mult.commute)
qed

lemma ideal_ratio_times_max:
  assumes big: "w > maxDimension \<or> h > maxDimension"
  shows "of_nat (max w h) * ideal_ratio w h = of_nat maxDimension"
proof -
  have pos: "max w h \<noteq> 0" using big by auto
  then have "(of_nat (max w h) :: rat) \<noteq> 0" by (simp only: of_nat_eq_0_iff) simp
  then show ?thesis by (simp add: ideal_ratio_def)
qed

lemma scaled_bounds:
  assumes r: "ieee_rounding rnd" and big: "w > maxDimension \<or> h > maxDimension"
  shows "of_nat d * ideal_ratio w h * (1 - unit_roundoff)\<^sup>2 \<le> rnd (of_nat d * scale_ratio rnd w h)"
    and "rnd (of_nat d * scale_ratio rnd w h) \<le> of_nat d * ideal_ratio w h * (1 + unit_roundoff)\<^sup>2"
proof -
  let ?s = "scale_ratio rnd w h"
  have s_lo: "ideal_ratio w h * (1 - unit_roundoff) \<le> ?s" using r big by (rule scale_ratio_lower)
  have s_up: "?s \<le> ideal_ratio w h * (1 + unit_roundoff)" using r big by (rule scale_ratio_upper)
  have i0: "0 \<le> ideal_ratio w h" by (simp add: ideal_ratio_def)
  have s0: "0 \<le> ?s"
  proof -
    have "0 \<le> ideal_ratio w h * (1 - unit_roundoff)" using i0 unit_roundoff_bounds by simp
    with s_lo show ?thesis by linarith
  qed
  have p0: "0 \<le> of_nat d * ?s" using s0 by simp
  have "of_nat d * ideal_ratio w h * (1 - unit_roundoff)\<^sup>2
        = (of_nat d * (ideal_ratio w h * (1 - unit_roundoff))) * (1 - unit_roundoff)"
    by (simp add: power2_eq_square algebra_simps)
  also have "\<dots> \<le> (of_nat d * ?s) * (1 - unit_roundoff)"
    using s_lo unit_roundoff_bounds by (intro mult_right_mono mult_left_mono) simp_all
  also have "\<dots> \<le> rnd (of_nat d * ?s)" using r p0 by (rule rnd_lower)
  finally show "of_nat d * ideal_ratio w h * (1 - unit_roundoff)\<^sup>2 \<le> rnd (of_nat d * ?s)" .
  have "rnd (of_nat d * ?s) \<le> (of_nat d * ?s) * (1 + unit_roundoff)" using r p0 by (rule rnd_upper)
  also have "\<dots> \<le> (of_nat d * (ideal_ratio w h * (1 + unit_roundoff))) * (1 + unit_roundoff)"
    using s_up unit_roundoff_bounds by (intro mult_right_mono mult_left_mono) simp_all
  also have "\<dots> = of_nat d * ideal_ratio w h * (1 + unit_roundoff)\<^sup>2"
    by (simp add: power2_eq_square algebra_simps)
  finally show "rnd (of_nat d * ?s) \<le> of_nat d * ideal_ratio w h * (1 + unit_roundoff)\<^sup>2" .
qed

lemma roundoff_numeric:
  "(1920 :: rat) * (1 + unit_roundoff)\<^sup>2 < 1921"
  "(1919 :: rat) < 1920 * (1 - unit_roundoff)\<^sup>2"
  "(1 + unit_roundoff)\<^sup>2 \<le> 1 + 1 / 2 ^ 51"
  "1 - 1 / 2 ^ 51 \<le> (1 - unit_roundoff)\<^sup>2"
  by (simp_all add: unit_roundoff_def power2_eq_square)

lemma canvas_size_le:
  assumes "x < of_nat n + 1"
  shows "canvas_size x \<le> n"
proof -
  have "x < of_int (int n + 1)" using assms by simp
  then have "\<lfloor>x\<rfloor> < int n + 1" by (simp only: floor_less_iff)
  then show ?thesis by (simp add: canvas_size_def)
qed

lemma canvas_size_ge:
  assumes "of_nat n \<le> x"
  shows "n \<le> canvas_size x"
proof -
  have "of_int (int n) \<le> x" using assms by simp
  then have "int n \<le> \<lfloor>x\<rfloor>" by (simp only: le_floor_iff)
  then show ?thesis by (simp add: canvas_size_def)
qed

lemma canvas_size_near:
  assumes "0 \<le> x"
  shows "of_nat (canvas_size x) \<le> x" "x - 1 < of_nat (canvas_size x)"
proof -
  have f0: "0 \<le> \<lfloor>x\<rfloor>" using assms by simp
  then have eq: "(of_nat (canvas_size x) :: rat) = of_int \<lfloor>x\<rfloor>"
    by (simp add: canvas_size_def)
  show "of_nat (canvas_size x) \<le> x" unfolding eq by (rule of_int_floor_le)
  show "x - 1 < of_nat (canvas_size x)" unfolding eq by linarith
qed

lemma scaled_canvas:
  assumes r: "ieee_rounding rnd" and big: "w > maxDimension \<or> h > maxDimension"
    and d: "d \<le> max w h"
  shows "canvas_size (rnd (of_nat d * scale_ratio rnd w h)) \<le> maxDimension"
    and "\<bar>of_nat (canvas_size (rnd (of_nat d * scale_ratio rnd w h))) - of_nat d * ideal_ratio w h\<bar>
           \<le> 1 + 1 / 2 ^ 40"
    and "d = max w h \<Longrightarrow> maxDimension - 1 \<le> canvas_size (rnd (of_nat d * scale_ratio rnd w h))"
    and "rnd (of_nat d * scale_ratio rnd w h) \<le> of_nat maxDimension + 1 / 2 ^ 40"
proof -
  let ?x = "rnd (of_nat d * scale_ratio rnd w h)"
  let ?i = "of_nat d * ideal_ratio w h"
  have lo: "?i * (1 - unit_roundoff)\<^sup>2 \<le> ?x" and up: "?x \<le> ?i * (1 + unit_roundoff)\<^sup>2"
    using scaled_bounds[OF r big, of d] by simp_all
  have i0: "0 \<le> ?i" and i1: "?i \<le> 1920"
    using ideal_ratio_times_le[OF big d] by (simp_all add: maxDimension_def)
  have x0: "0 \<le> ?x"
  proof -
    have "0 \<le> ?i * (1 - unit_roundoff)\<^sup>2" using i0 by simp
    with lo show ?thesis by linarith
  qed
  have up': "?x \<le> ?i + 1 / 2 ^ 40"
  proof -
    have "?i * (1 + unit_roundoff)\<^sup>2 \<le> ?i * (1 + 1 / 2 ^ 51)"
      using i0 roundoff_numeric(3) by (intro mult_left_mono) simp_all
    also have "\<dots> = ?i + ?i * (1 / 2 ^ 51)" by (simp add: algebra_simps)
    also have "\<dots> \<le> ?i + 1920 * (1 / 2 ^ 51)"
      using i1 by (intro add_left_mono mult_right_mono) simp_all
    also have "\<dots> \<le> ?i + 1 / 2 ^ 40" by simp
    finally show ?thesis using up by linarith
  qed
  have lo': "?i - 1 / 2 ^ 40 \<le> ?x"
  proof -
    have "?i - 1 / 2 ^ 40 \<le> ?i - 1920 * (1 / 2 ^ 51)" by simp
    also have "\<dots> \<le> ?i - ?i * (1 / 2 ^ 51)"
      using i1 by (intro diff_left_mono mult_right_mono) simp_all
    also have "\<dots> = ?i * (1 - 1 / 2 ^ 51)" by (simp add: algebra_simps)
    also have "\<dots> \<le> ?i * (1 - unit_roundoff)\<^sup>2"
      using i0 roundoff_numeric(4) by (intro mult_left_mono) simp_all
    finally show ?thesis using lo by linarith
  qed
  have "?x < 1921" using up' i1 by simp
  then show "canvas_size ?x \<le> maxDimension"
    by (intro canvas_size_le) (simp add: maxDimension_def)
  show "\<bar>of_nat (canvas_size ?x) - ?i\<bar> \<le> 1 + 1 / 2 ^ 40"
    using canvas_size_near[OF x0] up' lo' by (simp only: abs_le_iff) linarith
  show "maxDimension - 1 \<le> canvas_size ?x" if "d = max w h"
  proof -
    have "?i = 1920" using ideal_ratio_times_max[OF big] that by (simp add: maxDimension_def)
    then have "1919 \<le> ?x" using lo' by simp
    then show ?thesis by (intro canvas_size_ge) (simp add: maxDimension_def)
  qed
  show "?x \<le> of_nat maxDimension + 1 / 2 ^ 40"
    using up' i1 by (simp add: maxDimension_def)
qed

lemma compressImage_dimensions:
  assumes "img_dimensions env = Some (w, h)"
    and "compressImage rnd env f = Inr (compressedFile, md)"
  shows "dimensions md = optimal_dimensions rnd w h"
  using assms
  by (auto simp: compressImage_def compressed_result_def Let_def split: if_splits option.splits)

lemma optimal_dimensions_canvas:
  assumes r: "ieee_rounding rnd"
  shows "canvas_size (fst (optimal_dimensions rnd w h)) \<le> maxDimension
       \<and> canvas_size (snd (optimal_dimensions rnd w h)) \<le> maxDimension
       \<and> fst (optimal_dimensions rnd w h) \<le> of_nat maxDimension + 1 / 2 ^ 40
       \<and> snd (optimal_dimensions rnd w h) \<le> of_nat maxDimension + 1 / 2 ^ 40
       \<and> (w > maxDimension \<or> h > maxDimension \<longrightarrow>
            maxDimension - 1 \<le> max (canvas_size (fst (optimal_dimensions rnd w h)))
                                     (canvas_size (snd (optimal_dimensions rnd w h)))
          \<and> \<bar>of_nat (canvas_size (fst (optimal_dimensions rnd w h))) - of_nat w * ideal_ratio w h\<bar>
               \<le> 1 + 1 / 2 ^ 40
          \<and> \<bar>of_nat (canvas_size (snd (optimal_dimensions rnd w h))) - of_nat h * ideal_ratio w h\<bar>
               \<le> 1 + 1 / 2 ^ 40)
       \<and> (\<not> (w > maxDimension \<or> h > maxDimension) \<longrightarrow>
            optimal_dimensions rnd w h = (of_nat w, of_nat h))"
proof (cases "w > maxDimension \<or> h > maxDimension")
  case False
  then have "(of_nat w :: rat) \<le> of_nat maxDimension" "(of_nat h :: rat) \<le> of_nat maxDimension"
    by (simp_all only: of_nat_le_iff) simp_all
  then have "(of_nat w :: rat) \<le> of_nat maxDimension + 1 / 2 ^ 40"
    "(of_nat h :: rat) \<le> of_nat maxDimension + 1 / 2 ^ 40"
    by simp_all
  with False show ?thesis by (simp add: optimal_dimensions_def canvas_size_def)
next
  case True
  have od: "optimal_dimensions rnd w h
            = (rnd (of_nat w * scale_ratio rnd w h), rnd (of_nat h * scale_ratio rnd w h))"
    using True by (simp add: optimal_dimensions_def Let_def)
  have w: "w \<le> max w h" and h: "h \<le> max w h" by simp_all
  note sw = scaled_canvas[OF r True w] and sh = scaled_canvas[OF r True h]
  have m: "maxDimension - 1 \<le> max (canvas_size (rnd (of_nat w * scale_ratio rnd w h)))
                                      (canvas_size (rnd (of_nat h * scale_ratio rnd w h)))"
  proof (cases "h \<le> w")
    case True
    then have "w = max w h" by simp
    from sw(3)[OF this] show ?thesis by simp
  next
    case False
    then have "h = max w h" by simp
    from sh(3)[OF this] show ?thesis by simp
  qed
  show ?thesis using True sw(1,2,4) sh(1,2,4) m by (simp add: od)
qed

lemma ieee_rounding_exact: "ieee_rounding (\<lambda>x. x)"
  using unit_roundoff_bounds by (simp add: ieee_rounding_def)

lemma example_compressImage:
  "compressImage (\<lambda>x. x) example_env example_file = Inr (example_compressed, example_metadata)"
  by (simp add: compressImage_def example_env_def example_file_def compressed_result_def
      example_compressed_def example_metadata_def optimal_dimensions_def scale_ratio_def
      maxDimension_def compression_ratio_def Let_def)

lemma small_compressImage:
  "compressImage (\<lambda>x. x) small_env example_file = Inr (example_compressed, small_metadata)"
  by (simp add: compressImage_def small_env_def example_env_def example_file_def
      compressed_result_def example_compressed_def example_metadata_def small_metadata_def
      optimal_dimensions_def maxDimension_def compression_ratio_def Let_def)

lemma rnd_abs: "ieee_rounding rnd \<Longrightarrow> \<bar>rnd x - x\<bar> \<le> \<bar>x\<bar> * unit_roundoff"
  by (simp add: ieee_rounding_def)

lemma rnd_pos: "ieee_rounding rnd \<Longrightarrow> 0 < x \<Longrightarrow> 0 < rnd x"
proof -
  assume r: "ieee_rounding rnd" and x: "0 < x"
  have "0 < x * (1 - unit_roundoff)" using x unit_roundoff_bounds by simp
  also have "\<dots> \<le> rnd x" using r x by (intro rnd_lower) simp_all
  finally show ?thesis .
qed

lemma rnd_neg: "ieee_rounding rnd \<Longrightarrow> x < 0 \<Longrightarrow> rnd x < 0"
proof -
  assume r: "ieee_rounding rnd" and x: "x < 0"
  have "\<bar>rnd x - x\<bar> \<le> \<bar>x\<bar> * unit_roundoff" using r by (rule rnd_abs)
  then have "rnd x - x \<le> - x * unit_roundoff" using x by (simp add: abs_le_iff)
  then have "rnd x \<le> x * (1 - unit_roundoff)" by (simp add: algebra_simps)
  also have "\<dots> < 0" using x unit_roundoff_bounds by (intro mult_neg_pos) simp_all
  finally show ?thesis .
qed

lemma rnd_zero: "ieee_rounding rnd \<Longrightarrow> rnd 0 = 0"
  using rnd_abs[of rnd 0] by simp

lemma rnd_sign:
  assumes "ieee_rounding rnd"
  shows "rnd x = 0 \<longleftrightarrow> x = 0" "rnd x < 0 \<longleftrightarrow> x < 0" "0 < rnd x \<longleftrightarrow> 0 < x"
proof -
  consider "x < 0" | "x = 0" | "0 < x" by linarith
  then have "(rnd x = 0 \<longleftrightarrow> x = 0) \<and> (rnd x < 0 \<longleftrightarrow> x < 0) \<and> (0 < rnd x \<longleftrightarrow> 0 < x)"
  proof cases
    case 1
    with rnd_neg[OF assms 1] show ?thesis by simp
  next
    case 2
    with rnd_zero[OF assms] show ?thesis by simp
  next
    case 3
    with rnd_pos[OF assms 3] show ?thesis by simp
  qed
  then show "rnd x = 0 \<longleftrightarrow> x = 0" "rnd x < 0 \<longleftrightarrow> x < 0" "0 < rnd x \<longleftrightarrow> 0 < x" by simp_all
qed

lemma roundoff_twice: "unit_roundoff * (2 + unit_roundoff) \<le> 1 / 2 ^ 51"
  by (simp add: unit_roundoff_def)

lemma rnd_twice:
  assumes r: "ieee_rounding rnd"
  shows "\<bar>rnd (rnd q * 100) - q * 100\<bar> \<le> \<bar>q * 100\<bar> / 2 ^ 51"
proof -
  define u where "u = unit_roundoff"
  define y where "y = rnd q"
  define z where "z = rnd (y * 100)"
  define A where "A = \<bar>q\<bar>"
  have u0: "0 \<le> u" using unit_roundoff_bounds by (simp add: u_def)
  have A0: "0 \<le> A" by (simp add: A_def)
  have a: "\<bar>y - q\<bar> \<le> A * u" unfolding y_def A_def u_def using r by (rule rnd_abs)
  have "\<bar>y\<bar> \<le> \<bar>y - q\<bar> + \<bar>q\<bar>" by linarith
  with a have c: "\<bar>y\<bar> \<le> A + A * u" by (simp add: A_def)
  have "\<bar>z - y * 100\<bar> \<le> \<bar>y * 100\<bar> * u" unfolding z_def u_def using r by (rule rnd_abs)
  moreover have "\<bar>y * 100\<bar> = \<bar>y\<bar> * 100" by (simp add: abs_mult)
  ultimately have b: "\<bar>z - y * 100\<bar> \<le> \<bar>y\<bar> * 100 * u" by simp
  have "\<bar>y\<bar> * 100 * u \<le> (A + A * u) * 100 * u"
    using c u0 by (intro mult_right_mono) simp_all
  with b have b': "\<bar>z - y * 100\<bar> \<le> (A + A * u) * 100 * u" by linarith
  have d: "\<bar>y * 100 - q * 100\<bar> \<le> A * u * 100"
    using a unfolding abs_le_iff by linarith
  have "\<bar>z - q * 100\<bar> \<le> \<bar>z - y * 100\<bar> + \<bar>y * 100 - q * 100\<bar>" by linarith
  with b' d have "\<bar>z - q * 100\<bar> \<le> (A + A * u) * 100 * u + A * u * 100" by linarith
  also have "\<dots> = (A * 100) * (u * (2 + u))" by (simp add: algebra_simps)
  also have "\<dots> \<le> (A * 100) * (1 / 2 ^ 51)"
    using A0 roundoff_twice unfolding u_def by (intro mult_left_mono) simp_all
  also have "\<dots> = \<bar>q * 100\<bar> / 2 ^ 51" by (simp add: A_def abs_mult)
  finally show ?thesis by (simp add: z_def y_def)
qed

lemma compression_ratio_percent:
  assumes r: "ieee_rounding rnd" and a: "0 < a"
  shows "\<exists>x. compression_ratio rnd a b = Some x
             \<and> \<bar>x - (of_nat a - of_nat b) / of_nat a * 100\<bar>
                 \<le> \<bar>(of_nat a - of_nat b) / of_nat a * 100\<bar> / 2 ^ 51
             \<and> (x = 0 \<longleftrightarrow> b = a) \<and> (x < 0 \<longleftrightarrow> a < b) \<and> (0 < x \<longleftrightarrow> b < a)"
proof -
  let ?q = "(of_nat a - of_nat b) / of_nat a :: rat"
  have pos: "(0::rat) < of_nat a" using a by simp
  have q0: "?q = 0 \<longleftrightarrow> b = a" using pos by auto
  have qn: "?q < 0 \<longleftrightarrow> a < b" using pos by (simp add: divide_less_0_iff)
  have qp: "0 < ?q \<longleftrightarrow> b < a" using pos by (simp add: zero_less_divide_iff)
  have s0: "rnd (rnd ?q * 100) = 0 \<longleftrightarrow> b = a" using rnd_sign(1)[OF r] q0 by simp
  have sn: "rnd (rnd ?q * 100) < 0 \<longleftrightarrow> a < b"
    using rnd_sign(2)[OF r, of "rnd ?q * 100"] rnd_sign(2)[OF r, of ?q] qn
    by (simp add: mult_less_0_iff)
  have sp: "0 < rnd (rnd ?q * 100) \<longleftrightarrow> b < a"
    using rnd_sign(3)[OF r, of "rnd ?q * 100"] rnd_sign(3)[OF r, of ?q] qp
    by (simp add: zero_less_mult_iff)
  show ?thesis
    using a rnd_twice[OF r, of ?q] s0 sn sp by (simp add: compression_ratio_def)
qed

section \<open>The dimension cap of the compression step\<close>

text \<open>
  Claim C2. Let \<open>compressImage\<close> succeed on an image of \<open>w\<close> by \<open>h\<close> pixels, with any
  rounding of the double operations that stays within the relative error of
  round-to-nearest. Then neither side of the canvas exceeds \<open>maxDimension\<close> (1920),
  and the sides reported in the metadata, which are not truncated, exceed it by less
  than \<open>2^-40\<close>.
  If \<open>w\<close> or \<open>h\<close> exceeds it, the larger side of the canvas is 1919 or 1920, and each
  side is within a pixel (and \<open>2^-40\<close>) of the input side times the one ratio
  \<open>maxDimension / max w h\<close>, so the aspect ratio is kept up to the rounding to whole
  pixels. Otherwise the dimensions are unchanged.
\<close>

theorem compressImage_dimension_cap:
  assumes "ieee_rounding rnd"
    and "img_dimensions env = Some (w, h)"
    and "compressImage rnd env f = Inr (compressedFile, md)"
  shows "canvas_size (fst (dimensions md)) \<le> maxDimension
       \<and> canvas_size (snd (dimensions md)) \<le> maxDimension
       \<and> fst (dimensions md) \<le> of_nat maxDimension + 1 / 2 ^ 40
       \<and> snd (dimensions md) \<le> of_nat maxDimension + 1 / 2 ^ 40
       \<and> (w > maxDimension \<or> h > maxDimension \<longrightarrow>
            maxDimension - 1 \<le> max (canvas_size (fst (dimensions md)))
                                     (canvas_size (snd (dimensions md)))
          \<and> \<bar>of_nat (canvas_size (fst (dimensions md))) - of_nat w * ideal_ratio w h\<bar> \<le> 1 + 1 / 2 ^ 40
          \<and> \<bar>of_nat (canvas_size (snd (dimensions md))) - of_nat h * ideal_ratio w h\<bar> \<le> 1 + 1 / 2 ^ 40)
       \<and> (\<not> (w > maxDimension \<or> h > maxDimension) \<longrightarrow> dimensions md = (of_nat w, of_nat h))"
  using optimal_dimensions_canvas[OF assms(1), of w h] compressImage_dimensions[OF assms(2,3)]
  by simp

theorem compressImage_dimension_cap_witness:
  "ieee_rounding (\<lambda>x. x)
   \<and> img_dimensions example_env = Some (4000, 3000)
   \<and> compressImage (\<lambda>x. x) example_env example_file = Inr (example_compressed, example_metadata)
   \<and> canvas_size (fst (dimensions example_metadata)) = 1920
   \<and> canvas_size (snd (dimensions example_metadata)) = 1440
   \<and> maxDimension - 1 \<le> max (canvas_size (fst (dimensions example_metadata)))
                                (canvas_size (snd (dimensions example_metadata)))
   \<and> \<bar>of_nat (canvas_size (snd (dimensions example_metadata))) - of_nat 3000 * ideal_ratio 4000 3000\<bar>
        \<le> 1 + 1 / 2 ^ 40
   \<and> img_dimensions small_env = Some (800, 600)
   \<and> compressImage (\<lambda>x. x) small_env example_file = Inr (example_compressed, small_metadata)
   \<and> dimensions small_metadata = (of_nat 800, of_nat 600)"
proof -
  have i: "img_dimensions example_env = Some (4000, 3000)" by (simp add: example_env_def)
  have j: "img_dimensions small_env = Some (800, 600)" by (simp add: small_env_def)
  have d: "dimensions example_metadata = (1920, 1440)" by (simp add: example_metadata_def)
  have big: "(4000::nat) > maxDimension \<or> (3000::nat) > maxDimension"
    and small: "\<not> ((800::nat) > maxDimension \<or> (600::nat) > maxDimension)"
    by (simp_all add: maxDimension_def)
  from compressImage_dimension_cap[OF ieee_rounding_exact i example_compressImage]
    compressImage_dimension_cap[OF ieee_rounding_exact j small_compressImage]
    big small i j d example_compressImage small_compressImage ieee_rounding_exact
  show ?thesis by (simp add: canvas_size_def)
qed

section \<open>Runs of uploadFile\<close>

lemma setUploadState_simps [simp]:
  "ui (setUploadState g r) = g (ui r)"
  "snapshots (setUploadState g r) = snapshots r @ [g (ui r)]"
  "calls (setUploadState g r) = calls r"
  by (simp_all add: setUploadState_def Let_def)

lemma call_simps [simp]:
  "ui (call e r) = ui r"
  "snapshots (call e r) = snapshots r"
  "calls (call e r) = calls r @ [e]"
  by (simp_all add: call_def)

lemma trace_simps [simp]:
  "trace (setUploadState g r) = trace r @ [(status (g (ui r)), progress (g (ui r)))]"
  "trace (call e r) = trace r"
  by (simp_all add: trace_def)

lemma try_after_upload_trace:
  "trace (snd (try_after_upload p env md dp r))
     = trace r @ [(status (ui r), 90), (Success, 100)]"
  by (simp add: try_after_upload_def Let_def split: option.splits)

lemma try_after_upload_result:
  "fst (try_after_upload p env md dp r)
     = (case onUpload_throws env of Some e \<Rightarrow> Inl e | None \<Rightarrow> Inr ())"
  by (simp add: try_after_upload_def Let_def split: option.splits)

lemma try_after_upload_ui:
  "status (ui (snd (try_after_upload p env md dp r))) = Success"
  "progress (ui (snd (try_after_upload p env md dp r))) = 100"
  by (simp_all add: try_after_upload_def Let_def split: option.splits)

lemma try_after_compress_trace:
  "trace (snd (try_after_compress p env f cf md r))
     = trace r @ [(status (ui r), 50), (status (ui r), 70)]
       @ (case storage_upload env of Inl e \<Rightarrow> [] | Inr dp \<Rightarrow> [(status (ui r), 90), (Success, 100)])"
  by (simp add: try_after_compress_def try_before_store_def Let_def try_after_upload_trace split: sum.splits)

lemma try_after_compress_result:
  "fst (try_after_compress p env f cf md r)
     = (case storage_upload env of Inl e \<Rightarrow> Inl e
        | Inr dp \<Rightarrow> (case onUpload_throws env of Some e \<Rightarrow> Inl e | None \<Rightarrow> Inr ()))"
  by (simp add: try_after_compress_def try_before_store_def Let_def try_after_upload_result split: sum.splits)

lemma try_after_compress_ui:
  "(status (ui (snd (try_after_compress p env f cf md r))),
    progress (ui (snd (try_after_compress p env f cf md r))))
     = (case storage_upload env of Inl e \<Rightarrow> (status (ui r), 70) | Inr dp \<Rightarrow> (Success, 100))"
  by (simp add: try_after_compress_def try_before_store_def Let_def try_after_upload_ui split: sum.splits)

lemma try_block_trace:
  "trace (snd (try_block rnd p env f r))
     = trace r @ [(status (ui r), 30)]
       @ (case compressImage rnd env f of Inl e \<Rightarrow> []
          | Inr c \<Rightarrow> [(status (ui r), 50), (status (ui r), 70)]
              @ (case storage_upload env of Inl e \<Rightarrow> []
                 | Inr dp \<Rightarrow> [(status (ui r), 90), (Success, 100)]))"
  by (simp add: try_block_def try_start_def Let_def try_after_compress_trace split: sum.splits prod.splits)

lemma try_block_result:
  "fst (try_block rnd p env f r)
     = (case compressImage rnd env f of Inl e \<Rightarrow> Inl e
        | Inr c \<Rightarrow> (case storage_upload env of Inl e \<Rightarrow> Inl e
            | Inr dp \<Rightarrow> (case onUpload_throws env of Some e \<Rightarrow> Inl e | None \<Rightarrow> Inr ())))"
  by (simp add: try_block_def try_start_def Let_def try_after_compress_result split: sum.splits prod.splits)

lemma try_block_ui:
  "(status (ui (snd (try_block rnd p env f r))), progress (ui (snd (try_block rnd p env f r))))
     = (case compressImage rnd env f of Inl e \<Rightarrow> (status (ui r), 30)
        | Inr c \<Rightarrow> (case storage_upload env of Inl e \<Rightarrow> (status (ui r), 70)
            | Inr dp \<Rightarrow> (Success, 100)))"
  by (simp add: try_block_def try_start_def Let_def try_after_compress_ui split: sum.splits prod.splits)

lemma try_block_progress:
  "progress (ui (snd (try_block rnd p env f r)))
     = (case compressImage rnd env f of Inl e \<Rightarrow> 30
        | Inr c \<Rightarrow> (case storage_upload env of Inl e \<Rightarrow> 70 | Inr dp \<Rightarrow> 100))"
  using try_block_ui[of rnd p env f r] by (auto split: sum.splits)

lemma catch_block_trace:
  "trace (catch_block p e r) = trace r @ [(Error, progress (ui r))]"
  by (simp add: catch_block_def Let_def)

lemma try_catch_unfold:
  "snd (try_catch rnd p env f r0)
     = (let r1 = set_uploading f r0
        in case fst (try_block rnd p env f r1) of
             Inr _ \<Rightarrow> snd (try_block rnd p env f r1)
           | Inl e \<Rightarrow> catch_block p e (snd (try_block rnd p env f r1)))"
  by (simp add: try_catch_def Let_def split: prod.splits sum.splits)

lemma try_catch_trace_eq:
  "trace (snd (try_catch rnd p env f (fresh s0)))
     = [(Uploading, 10), (Uploading, 30)]
       @ (case compressImage rnd env f of
            Inl e \<Rightarrow> [(Error, 30)]
          | Inr c \<Rightarrow> [(Uploading, 50), (Uploading, 70)]
              @ (case storage_upload env of
                   Inl e \<Rightarrow> [(Error, 70)]
                 | Inr dp \<Rightarrow> [(Uploading, 90), (Success, 100)]
                     @ (case onUpload_throws env of Some e \<Rightarrow> [(Error, 100)] | None \<Rightarrow> [])))"
proof -
  let ?r1 = "set_uploading f (fresh s0)"
  have t1: "trace ?r1 = [(Uploading, 10)]" and s1: "status (ui ?r1) = Uploading"
    by (simp_all add: set_uploading_def fresh_def trace_def)
  have tb: "trace (snd (try_block rnd p env f ?r1))
     = [(Uploading, 10), (Uploading, 30)]
       @ (case compressImage rnd env f of Inl e \<Rightarrow> []
          | Inr c \<Rightarrow> [(Uploading, 50), (Uploading, 70)]
              @ (case storage_upload env of Inl e \<Rightarrow> []
                 | Inr dp \<Rightarrow> [(Uploading, 90), (Success, 100)]))"
    unfolding try_block_trace t1 s1 by simp
  show ?thesis
    unfolding try_catch_unfold Let_def
    by (cases "compressImage rnd env f"; cases "storage_upload env"; cases "onUpload_throws env")
       (simp_all add: try_block_result catch_block_trace tb try_block_progress)
qed

lemma try_catch_trace:
  "trace (snd (try_catch rnd p env f (fresh s0))) \<in> possible_traces"
proof -
  let ?r1 = "set_uploading f (fresh s0)"
  have t1: "trace ?r1 = [(Uploading, 10)]" and s1: "status (ui ?r1) = Uploading"
    by (simp_all add: set_uploading_def fresh_def trace_def)
  have tb: "trace (snd (try_block rnd p env f ?r1))
     = [(Uploading, 10), (Uploading, 30)]
       @ (case compressImage rnd env f of Inl e \<Rightarrow> []
          | Inr c \<Rightarrow> [(Uploading, 50), (Uploading, 70)]
              @ (case storage_upload env of Inl e \<Rightarrow> []
                 | Inr dp \<Rightarrow> [(Uploading, 90), (Success, 100)]))"
    unfolding try_block_trace t1 s1 by simp
  show ?thesis
    unfolding try_catch_unfold Let_def
    by (cases "compressImage rnd env f"; cases "storage_upload env"; cases "onUpload_throws env")
       (simp_all add: try_block_result catch_block_trace tb try_block_progress possible_traces_def)
qed

lemma try_catch_resolved: "fst (try_catch rnd p env f r0) = Resolved"
  by (simp add: try_catch_def Let_def split: prod.splits sum.splits)

lemma validateFile_truthy: "validateFile n f = Some m \<Longrightarrow> truthy m"
  by (auto simp: validateFile_def Let_def truthy_def invalid_type_message_def too_large_message_def
      split: if_splits)

lemma uploadFile_unauthenticated:
  "\<not> authenticated sess \<Longrightarrow> uploadFile rnd sess p env f r0 = (Rejected ''User not authenticated'', r0)"
  by (simp add: uploadFile_def)

lemma uploadFile_invalid:
  "authenticated sess \<Longrightarrow> validateFile (maxSize p) f = Some m
     \<Longrightarrow> uploadFile rnd sess p env f r0 = (Rejected m, r0)"
  by (simp add: uploadFile_def validateFile_truthy)

lemma uploadFile_valid:
  "authenticated sess \<Longrightarrow> validateFile (maxSize p) f = None
     \<Longrightarrow> uploadFile rnd sess p env f r0 = try_catch rnd p env f r0"
  by (simp add: uploadFile_def)

lemma uploadFile_cases:
  obtains (rejected) e where "uploadFile rnd sess p env f r0 = (Rejected e, r0)"
  | (ran) "uploadFile rnd sess p env f r0 = (Resolved, snd (try_catch rnd p env f r0))"
proof (cases "authenticated sess")
  case False
  then show ?thesis using rejected uploadFile_unauthenticated by blast
next
  case True
  show ?thesis
  proof (cases "validateFile (maxSize p) f")
    case None
    with True have "uploadFile rnd sess p env f r0 = try_catch rnd p env f r0" by (rule uploadFile_valid)
    then have "uploadFile rnd sess p env f r0 = (Resolved, snd (try_catch rnd p env f r0))"
      using try_catch_resolved[of rnd p env f r0] by (simp add: prod_eq_iff)
    then show ?thesis by (rule ran)
  next
    case (Some m)
    with True have "uploadFile rnd sess p env f r0 = (Rejected m, r0)" by (rule uploadFile_invalid)
    then show ?thesis by (rule rejected)
  qed
qed

lemma try_after_upload_calls:
  "calls (snd (try_after_upload p env md dp r)) = calls r @ upload_calls p env md dp"
  by (simp add: try_after_upload_def upload_calls_def Let_def split: option.splits)

lemma try_after_compress_calls:
  "calls (snd (try_after_compress p env f cf md r)) = calls r @ compress_calls p env f cf md"
  by (simp add: try_after_compress_def try_before_store_def compress_calls_def Let_def
      try_after_upload_calls split: sum.splits)

lemma try_block_calls:
  "calls (snd (try_block rnd p env f r)) = calls r @ try_calls rnd p env f"
  by (simp add: try_block_def try_start_def try_calls_def Let_def try_after_compress_calls
      split: sum.splits prod.splits)

lemma catch_block_calls:
  "calls (catch_block p e r) = calls r @ catch_calls p e"
  by (simp add: catch_block_def catch_calls_def Let_def)

lemma try_catch_calls:
  "calls (snd (try_catch rnd p env f r0))
     = calls r0 @ try_calls rnd p env f
       @ (case fst (try_block rnd p env f (set_uploading f r0)) of
            Inr _ \<Rightarrow> [] | Inl e \<Rightarrow> catch_calls p e)"
  unfolding try_catch_unfold Let_def
  by (simp add: try_block_calls catch_block_calls set_uploading_def split: sum.splits)

lemma ToastOptimized_in_calls:
  assumes "compressImage rnd env f = Inr (cf, md)"
  shows "ToastOptimized m \<in> set (calls (snd (try_catch rnd p env f r0)))
         \<longleftrightarrow> ToastOptimized m \<in> set (calls r0) \<or> (m = md \<and> exceeds_10 (compressionRatio md))"
  unfolding try_catch_calls
  by (auto simp: try_calls_def compress_calls_def upload_calls_def catch_calls_def assms Let_def
      split: sum.splits option.splits if_splits)

lemma trace_progress: "map progress (snapshots r) = map snd (trace r)"
  by (simp add: trace_def comp_def)

lemma trace_last:
  "snapshots r \<noteq> [] \<Longrightarrow> status (last (snapshots r)) = fst (last (trace r))"
  by (simp add: trace_def last_map)

lemma trace_nonempty: "snapshots r \<noteq> [] \<longleftrightarrow> trace r \<noteq> []"
  by (simp add: trace_def)

lemma trace_facts:
  assumes "trace r \<in> possible_traces"
  shows "sorted (map progress (snapshots r))"
    and "snapshots r \<noteq> []"
    and "status (last (snapshots r)) = Success \<or> status (last (snapshots r)) = Error"
    and "status (last (snapshots r)) = Success \<longrightarrow> progress (last (snapshots r)) = 100"
    and "status (last (snapshots r)) = Error \<longrightarrow>
           butlast (snapshots r) \<noteq> []
           \<and> progress (last (snapshots r)) = progress (last (butlast (snapshots r)))"
proof -
  have p: "map progress (snapshots r) = map snd (trace r)" by (simp add: trace_def comp_def)
  have ne: "trace r \<noteq> []" using assms by (auto simp: possible_traces_def)
  then show n: "snapshots r \<noteq> []" by (simp add: trace_def)
  have st: "status (last (snapshots r)) = fst (last (trace r))"
    and pr: "progress (last (snapshots r)) = snd (last (trace r))"
    using n by (simp_all add: trace_def last_map)
  have bl: "butlast (trace r) = map (\<lambda>s. (status s, progress s)) (butlast (snapshots r))"
    by (simp add: trace_def map_butlast)
  have bn: "butlast (snapshots r) \<noteq> [] \<longleftrightarrow> butlast (trace r) \<noteq> []" by (simp add: bl)
  have pb: "butlast (snapshots r) \<noteq> [] \<Longrightarrow>
              progress (last (butlast (snapshots r))) = snd (last (butlast (trace r)))"
    by (simp add: bl last_map)
  show "sorted (map progress (snapshots r))"
    unfolding p using assms by (auto simp: possible_traces_def)
  show "status (last (snapshots r)) = Success \<or> status (last (snapshots r)) = Error"
    unfolding st using assms by (auto simp: possible_traces_def)
  show "status (last (snapshots r)) = Success \<longrightarrow> progress (last (snapshots r)) = 100"
    unfolding st pr using assms by (auto simp: possible_traces_def)
  have "butlast (trace r) \<noteq> [] \<and> (fst (last (trace r)) = Error \<longrightarrow>
          snd (last (trace r)) = snd (last (butlast (trace r))))"
    using assms by (auto simp: possible_traces_def)
  then show "status (last (snapshots r)) = Error \<longrightarrow>
           butlast (snapshots r) \<noteq> []
           \<and> progress (last (snapshots r)) = progress (last (butlast (snapshots r)))"
    using bn pb st pr by simp
qed

subsection \<open>The sample runs\<close>

lemma example_authenticated: "authenticated (Some ''user-1'')"
  by (simp add: authenticated_def truthy_def)

lemma guest_unauthenticated: "\<not> authenticated None"
  by (simp add: authenticated_def)

lemma pdf_not_allowed: "file_type pdf_file \<notin> set (map fst ALLOWED_FILE_TYPES)"
  by (simp add: pdf_file_def ALLOWED_FILE_TYPES_def)

lemma example_valid: "validateFile (maxSize example_props) example_file = None"
  by (simp add: validateFile_def example_props_def example_file_def ALLOWED_FILE_TYPES_def Let_def)

lemma offline_compressImage:
  "compressImage (\<lambda>x. x) offline_env example_file = Inr (example_compressed, example_metadata)"
  by (simp add: compressImage_def offline_env_def example_env_def example_file_def
      compressed_result_def example_compressed_def example_metadata_def optimal_dimensions_def
      scale_ratio_def maxDimension_def compression_ratio_def Let_def)

lemma example_env_fields:
  "storage_upload example_env = Inr ''recipes/1700000000000-k3j2x9a7bq.jpg''"
  "onUpload_throws example_env = None"
  "storage_upload offline_env = Inl ''Failed to fetch''"
  by (simp_all add: example_env_def offline_env_def)

lemma example_trace:
  "trace (snd (uploadFile (\<lambda>x. x) (Some ''user-1'') example_props example_env example_file (fresh idle_state)))
     = [(Uploading, 10), (Uploading, 30), (Uploading, 50), (Uploading, 70), (Uploading, 90),
        (Success, 100)]"
  by (simp add: uploadFile_valid[OF example_authenticated example_valid] try_catch_trace_eq
      example_compressImage example_env_fields)

lemma offline_trace:
  "trace (snd (uploadFile (\<lambda>x. x) (Some ''user-1'') example_props offline_env example_file (fresh idle_state)))
     = [(Uploading, 10), (Uploading, 30), (Uploading, 50), (Uploading, 70), (Error, 70)]"
  by (simp add: uploadFile_valid[OF example_authenticated example_valid] try_catch_trace_eq
      offline_compressImage example_env_fields)

lemma invalid_type_message_text:
  "invalid_type_message
     = ''Invalid file type. Please upload .jpg, .jpeg, .png, .webp, .gif files only.''"
  by (simp add: invalid_type_message_def ALLOWED_FILE_TYPES_def)

lemma big_png_message:
  "too_large_message 10 (of_nat (file_size big_png) / 1048576)
     = ''File size too large. Maximum allowed size is 10MB. Your file is 11.0MB.''"
  by (simp add: too_large_message_def big_png_def toFixed1_def) code_simp

lemma validateFile_size:
  "file_type f \<in> set (map fst ALLOWED_FILE_TYPES) \<Longrightarrow>
   validateFile n f =
     (if file_size f > n * (1024 * 1024)
      then Some (too_large_message n (of_nat (file_size f) / (1024 * 1024))) else None)"
proof -
  assume t: "file_type f \<in> set (map fst ALLOWED_FILE_TYPES)"
  have "(of_nat (file_size f) :: rat) / (1024 * 1024) > of_nat n
        \<longleftrightarrow> (of_nat (n * (1024 * 1024)) :: rat) < of_nat (file_size f)"
    by (simp add: less_divide_eq)
  also have "\<dots> \<longleftrightarrow> n * (1024 * 1024) < file_size f" by (simp only: of_nat_less_iff)
  finally show ?thesis using t by (simp add: validateFile_def Let_def)
qed

lemma messages_distinct: "invalid_type_message \<noteq> too_large_message n x"
  by (simp add: invalid_type_message_def too_large_message_def)

lemma enhanced_calls_ok:
  assumes "authenticated sess" and "validateFile (maxSize p) f = None"
    and "compressImage rnd env f = Inr (cf, md)" and "storage_upload env = Inr dp"
    and "onUpload_throws env = None"
  shows "calls (snd (uploadFile rnd sess p env f (fresh s0)))
     = CompressImage f
       # (if exceeds_10 (compressionRatio md) then [ToastOptimized md] else [])
       @ [StorageUpload (bucket p) (enhanced_filePath p env f) cf,
          GetPublicUrl (bucket p) dp,
          OnUpload (storage_public_url env) md,
          ToastSuccess ''Image uploaded successfully!'']"
  unfolding uploadFile_valid[OF assms(1,2)] try_catch_calls
  by (simp add: try_block_result assms try_calls_def compress_calls_def upload_calls_def fresh_def)

lemma enhanced_success_key:
  assumes ne: "snapshots (snd (uploadFile rnd sess p env f (fresh s0))) \<noteq> []"
    and ok: "status (last (snapshots (snd (uploadFile rnd sess p env f (fresh s0))))) = Success"
  shows "\<exists>cf. StorageUpload (bucket p) (enhanced_filePath p env f) cf
              \<in> set (calls (snd (uploadFile rnd sess p env f (fresh s0))))"
proof (cases rule: uploadFile_cases[of rnd sess p env f "fresh s0"])
  case (rejected e)
  with ne show ?thesis by (simp add: fresh_def)
next
  case ran
  let ?r = "snd (try_catch rnd p env f (fresh s0))"
  from ran have r: "snd (uploadFile rnd sess p env f (fresh s0)) = ?r" by simp
  from ok ne have "fst (last (trace ?r)) = Success"
    unfolding r by (simp add: trace_last)
  then obtain c where c: "compressImage rnd env f = Inr c"
    unfolding try_catch_trace_eq by (cases "compressImage rnd env f") auto
  have "StorageUpload (bucket p) (enhanced_filePath p env f) (fst c) \<in> set (calls ?r)"
    unfolding try_catch_calls by (simp add: try_calls_def compress_calls_def c)
  then show ?thesis unfolding r by blast
qed

lemma enhanced_filePath_format:
  "enhanced_filePath p env f
     = (if path p = [] then [] else path p @ ''/'')
       @ string_of_nat (date_now env) @ ''-'' @ drop 2 (random_base36 env)
       @ ''.'' @ file_extension (file_name f)"
  by (simp add: enhanced_filePath_def truthy_def Let_def)

lemma example_env_more:
  "random_base36 example_env = ''0.k3j2x9a7bq''"
  "storage_public_url example_env = ''https://store.example/recipes/1700000000000-k3j2x9a7bq.jpg''"
  "session_user_id example_env = Some ''user-1''"
  by (simp_all add: example_env_def)

lemma example_props_fields:
  "bucket example_props = ''recipe-images''" "path example_props = ''recipes''"
  "maxSize example_props = 10" "has_onError example_props"
  by (simp_all add: example_props_def)

lemma ratio_50_exceeds: "exceeds_10 (compressionRatio example_metadata)"
  by (simp add: exceeds_10_def example_metadata_def)

lemma success_ui:
  assumes "authenticated sess" and "validateFile (maxSize p) f = None"
    and "compressImage rnd env f = Inr (cf, md)" and "storage_upload env = Inr dp"
    and "onUpload_throws env = None"
  shows "ui (snd (uploadFile rnd sess p env f (fresh s0)))
     = \<lparr>status = Success, progress = 100, selected_file = Some f,
        preview = Some (storage_public_url env), metadata = Some md, error = None\<rparr>"
  unfolding uploadFile_valid[OF assms(1,2)]
  by (simp add: try_catch_def set_uploading_def try_block_def try_start_def
      try_after_compress_def try_before_store_def try_after_upload_def Let_def assms fresh_def)

lemma is_positive_iff: "is_positive r \<longleftrightarrow> (\<exists>x. r = Some x \<and> 0 < x)"
  by (simp add: is_positive_def split: option.splits)

lemma modest_compressImage:
  "compressImage (\<lambda>x. x) modest_env example_file = Inr (modest_compressed, modest_metadata)"
  by (simp add: compressImage_def modest_env_def example_env_def example_file_def
      compressed_result_def modest_compressed_def modest_metadata_def optimal_dimensions_def
      scale_ratio_def maxDimension_def compression_ratio_def Let_def)

lemma modest_env_fields:
  "storage_upload modest_env = Inr ''recipes/1700000000000-k3j2x9a7bq.jpg''"
  "onUpload_throws modest_env = None"
  by (simp_all add: modest_env_def example_env_def)

section \<open>File extensions and printed numbers\<close>

lemma split_on_nonempty: "split_on c s \<noteq> []"
  by (induction s) (auto split: list.splits)

lemma split_on_no_sep: "c \<notin> set s \<Longrightarrow> split_on c s = [s]"
  by (induction s) auto

lemma split_on_single: "split_on c s = [p] \<Longrightarrow> c \<notin> set s"
proof (induction s arbitrary: p)
  case Nil
  show ?case by simp
next
  case (Cons x xs)
  show ?case
  proof (cases "x = c")
    case True
    with Cons.prems show ?thesis by (simp add: split_on_nonempty)
  next
    case False
    obtain q qs where sp: "split_on c xs = q # qs"
      using split_on_nonempty[of c xs] by (cases "split_on c xs") auto
    with Cons.prems False have "qs = []" by simp
    with sp Cons.IH have "c \<notin> set xs" by simp
    with False show ?thesis by simp
  qed
qed

lemma last_split_on: "last (split_on c s) = rev (takeWhile (\<lambda>x. x \<noteq> c) (rev s))"
proof (induction s)
  case Nil
  show ?case by simp
next
  case (Cons x xs)
  show ?case
  proof (cases "c \<in> set xs")
    case True
    then have more: "\<And>p. split_on c xs \<noteq> [p]" using split_on_single by fastforce
    obtain q qs where sp: "split_on c xs = q # qs"
      using split_on_nonempty[of c xs] by (cases "split_on c xs") auto
    with more have qs: "qs \<noteq> []" by auto
    have "last (split_on c (x # xs)) = last (split_on c xs)"
      using sp qs by (cases "x = c") auto
    moreover have "takeWhile (\<lambda>x. x \<noteq> c) (rev (x # xs)) = takeWhile (\<lambda>x. x \<noteq> c) (rev xs)"
      using True by auto
    ultimately show ?thesis using Cons.IH by simp
  next
    case False
    then have sp: "split_on c xs = [xs]" by (rule split_on_no_sep)
    have tw: "takeWhile (\<lambda>z. z \<noteq> c) (rev xs @ [y])
                = rev xs @ takeWhile (\<lambda>z. z \<noteq> c) [y]" for y
      using False by (intro takeWhile_append2) auto
    show ?thesis
    proof (cases "x = c")
      case True
      then show ?thesis using sp by (simp add: tw)
    next
      case False
      then show ?thesis using sp by (simp add: tw)
    qed
  qed
qed

lemma file_extension_no_dot: "CHR ''.'' \<notin> set (file_extension name)"
  unfolding file_extension_def last_split_on
  by (auto dest: set_takeWhileD)

lemma file_extension_whole: "CHR ''.'' \<notin> set name \<Longrightarrow> file_extension name = name"
  by (simp add: file_extension_def split_on_no_sep)

lemma file_extension_suffix:
  assumes "CHR ''.'' \<in> set name"
  shows "\<exists>stem. name = stem @ ''.'' @ file_extension name"
proof -
  let ?P = "\<lambda>x. x \<noteq> CHR ''.''"
  have d: "dropWhile ?P (rev name) \<noteq> []" using assms by simp
  then have "\<not> ?P (hd (dropWhile ?P (rev name)))" by (rule hd_dropWhile)
  with d obtain rest where r: "dropWhile ?P (rev name) = CHR ''.'' # rest"
    by (cases "dropWhile ?P (rev name)") auto
  have "rev name = takeWhile ?P (rev name) @ dropWhile ?P (rev name)" by simp
  then have "name = rev (dropWhile ?P (rev name)) @ rev (takeWhile ?P (rev name))"
    by (metis rev_append rev_rev_ident)
  with r have "name = rev rest @ ''.'' @ file_extension name"
    by (simp add: file_extension_def last_split_on)
  then show ?thesis by blast
qed

lemma append_sep_cancel:
  assumes "a @ c # e1 = b @ c # e2" and "c \<notin> set e1" and "c \<notin> set e2"
  shows "a = b \<and> e1 = e2"
proof -
  have "takeWhile (\<lambda>x. x \<noteq> c) (rev (a @ c # e1)) = rev e1"
    using assms(2) by (auto simp: takeWhile_tail)
  moreover have "takeWhile (\<lambda>x. x \<noteq> c) (rev (b @ c # e2)) = rev e2"
    using assms(3) by (auto simp: takeWhile_tail)
  ultimately have "e1 = e2" using assms(1) by (metis rev_rev_ident)
  with assms(1) show ?thesis by simp
qed

lemma key_tail_cancel:
  assumes "a @ ''.'' @ file_extension n1 = b @ ''.'' @ file_extension n2"
  shows "a = b \<and> file_extension n1 = file_extension n2"
  using append_sep_cancel[of a "CHR ''.''" "file_extension n1" b "file_extension n2"]
    assms file_extension_no_dot by simp

lemma timestamp_text: "string_of_nat 1700000000000 = ''1700000000000''"
  by (simp add: string_of_nat.simps digit_char_def)

lemma example_extension: "file_extension (file_name example_file) = ''jpg''"
  by (simp add: file_extension_def example_file_def)

lemma example_date: "date_now example_env = 1700000000000"
  "date_now half_env = 1700000000000" "date_now quarter_env = 1700000000000"
  by (simp_all add: example_env_def half_env_def quarter_env_def)

lemma digit_value_digit_char: "d < 10 \<Longrightarrow> digit_value (digit_char d) = d"
proof -
  assume "d < 10"
  then have "d \<in> {0, 1, 2, 3, 4, 5, 6, 7, 8, 9}" by auto
  then show ?thesis by (auto simp: digit_value_def digit_char_def)
qed

lemma nat_of_string_string_of_nat: "nat_of_string (string_of_nat n) = n"
proof (induction n rule: string_of_nat.induct)
  case (1 n)
  show ?case
  proof (cases "n < 10")
    case True
    then show ?thesis
      by (subst string_of_nat.simps) (simp add: nat_of_string_def digit_value_digit_char)
  next
    case False
    with 1 have ih: "nat_of_string (string_of_nat (n div 10)) = n div 10" by simp
    have "nat_of_string (string_of_nat n)
          = 10 * nat_of_string (string_of_nat (n div 10)) + digit_value (digit_char (n mod 10))"
      using False by (subst string_of_nat.simps) (simp add: nat_of_string_def)
    then show ?thesis by (simp add: ih digit_value_digit_char)
  qed
qed

lemma toFixed1_reads:
  assumes "0 \<le> x"
  shows "\<exists>a b. toFixed1 x = string_of_nat a @ ''.'' @ [digit_char b] \<and> b < 10
             \<and> \<bar>of_nat (10 * a + b) / 10 - x\<bar> \<le> 1 / 20"
proof -
  define n where "n = nat \<lfloor>x * 10 + 1 / 2\<rfloor>"
  have f0: "0 \<le> \<lfloor>x * 10 + 1 / 2\<rfloor>" using assms by simp
  then have n: "(of_nat n :: rat) = of_int \<lfloor>x * 10 + 1 / 2\<rfloor>" by (simp add: n_def)
  have lo: "(of_nat n :: rat) \<le> x * 10 + 1 / 2" unfolding n by (rule of_int_floor_le)
  have up: "x * 10 + 1 / 2 < of_nat n + 1" unfolding n by linarith
  have "(of_nat (10 * (n div 10) + n mod 10) :: rat) = of_nat n" by simp
  then have "\<bar>of_nat (10 * (n div 10) + n mod 10) / 10 - x\<bar> \<le> 1 / 20"
    using lo up by (simp only: abs_le_iff) (simp add: field_simps)
  moreover have "toFixed1 x = string_of_nat (n div 10) @ ''.'' @ [digit_char (n mod 10)]"
    by (simp add: toFixed1_def n_def Let_def)
  moreover have "n mod 10 < 10" by simp
  ultimately show ?thesis by blast
qed

lemma too_large_message_sublists:
  "sublist (string_of_nat n @ ''MB'') (too_large_message n x)"
  "sublist (toFixed1 x @ ''MB'') (too_large_message n x)"
proof -
  have "too_large_message n x
        = ''File size too large. Maximum allowed size is '' @ (string_of_nat n @ ''MB'')
          @ (''. Your file is '' @ toFixed1 x @ ''MB.'')"
    by (simp add: too_large_message_def)
  then show "sublist (string_of_nat n @ ''MB'') (too_large_message n x)"
    unfolding sublist_def by blast
  have "too_large_message n x
        = (''File size too large. Maximum allowed size is '' @ string_of_nat n
           @ ''MB. Your file is '') @ (toFixed1 x @ ''MB'') @ ''.''"
    by (simp add: too_large_message_def)
  then show "sublist (toFixed1 x @ ''MB'') (too_large_message n x)"
    unfolding sublist_def by blast
qed

section \<open>Runs of the form components\<close>

lemma form_setters [simp]:
  "form_calls (setUploading x r) = form_calls r"
  "form_calls (setUploadProgress n r) = form_calls r"
  "form_calls (setUploadError e r) = form_calls r"
  "form_calls (setUploadSuccess m r) = form_calls r"
  "form_calls (setPreviewMedia u r) = form_calls r"
  "form_calls (setPreviewMediaType t r) = form_calls r"
  "form_calls (form_call c r) = form_calls r @ [c]"
  "progress_log (setUploading x r) = progress_log r"
  "progress_log (setUploadProgress n r) = progress_log r @ [n]"
  "progress_log (setUploadError e r) = progress_log r"
  "progress_log (setUploadSuccess m r) = progress_log r"
  "progress_log (setPreviewMedia u r) = progress_log r"
  "progress_log (setPreviewMediaType t r) = progress_log r"
  "progress_log (form_call c r) = progress_log r"
  by (simp_all add: setUploading_def setUploadProgress_def setUploadError_def
      setUploadSuccess_def setPreviewMedia_def setPreviewMediaType_def form_call_def)

lemma form_error [simp]:
  "uploadError (form (setUploadError e r)) = e"
  "uploadError (form (setUploading x r)) = uploadError (form r)"
  "uploadError (form (form_call c r)) = uploadError (form r)"
  by (simp_all add: setUploadError_def setUploading_def form_call_def)

lemma robust_unauthenticated:
  "session_user_id env = None \<Longrightarrow>
   robust_handleFileUpload m b env f r
     = setUploadError ''You must be logged in to upload images'' r"
  by (simp add: robust_handleFileUpload_def)

lemma robust_invalid_type:
  "session_user_id env = Some uid \<Longrightarrow> file_type f \<notin> set validTypes \<Longrightarrow>
   robust_handleFileUpload m b env f r
     = setUploadError ''Please upload a valid image file (JPEG, PNG, GIF, WebP)'' r"
  by (simp add: robust_handleFileUpload_def)

lemma robust_too_large:
  "session_user_id env = Some uid \<Longrightarrow> file_type f \<in> set validTypes \<Longrightarrow>
   file_size f > m * 1024 * 1024 \<Longrightarrow>
   robust_handleFileUpload m b env f r
     = setUploadError (''File size must be less than '' @ string_of_nat m @ ''MB'') r"
  by (simp add: robust_handleFileUpload_def)

lemma robust_after_upload_calls:
  "form_calls (snd (robust_after_upload bn fn env r))
     = form_calls r
       @ GetPublicUrl bn fn
         # (if \<not> truthy (storage_public_url env) then []
            else [OnImageChange (storage_public_url env)])"
  by (simp add: robust_after_upload_def Let_def split: option.splits)

lemma robust_after_upload_result:
  "fst (robust_after_upload bn fn env r)
     = (if \<not> truthy (storage_public_url env) then Inl ''Failed to get image URL''
        else (case onUpload_throws env of Some e \<Rightarrow> Inl e | None \<Rightarrow> Inr ()))"
  by (simp add: robust_after_upload_def Let_def split: option.splits)

lemma robust_try_calls:
  "form_calls (snd (robust_try uid b env f r))
     = form_calls r
       @ StorageUpload (bucketName_of b) (client_fileName uid env f) f
         # (case storage_upload env of
              Inl msg \<Rightarrow> [ConsoleError msg]
            | Inr _ \<Rightarrow>
                GetPublicUrl (bucketName_of b) (client_fileName uid env f)
                # (if \<not> truthy (storage_public_url env) then []
                   else [OnImageChange (storage_public_url env)]))"
  by (simp add: robust_try_def Let_def robust_after_upload_calls split: sum.splits)

lemma robust_try_result:
  "fst (robust_try uid b env f r)
     = (case storage_upload env of
          Inl msg \<Rightarrow> Inl (''Upload failed: '' @ msg)
        | Inr _ \<Rightarrow>
            (if \<not> truthy (storage_public_url env) then Inl ''Failed to get image URL''
             else (case onUpload_throws env of Some e \<Rightarrow> Inl e | None \<Rightarrow> Inr ())))"
  by (simp add: robust_try_def Let_def robust_after_upload_result split: sum.splits)

lemma robust_runs:
  assumes "session_user_id env = Some uid" and "file_type f \<in> set validTypes"
    and "\<not> file_size f > m * 1024 * 1024"
  shows "form_calls (robust_handleFileUpload m b env f r) = form_calls r @ robust_calls uid b env f"
proof -
  let ?r0 = "setUploadProgress 0 (setUploadSuccess [] (setUploadError [] (setUploading True r)))"
  have u: "robust_handleFileUpload m b env f r
     = form_call (SetTimeout 2000) (setUploading False
         (case fst (robust_try uid b env f ?r0) of
            Inr _ \<Rightarrow> snd (robust_try uid b env f ?r0)
          | Inl e \<Rightarrow> setUploadError e (form_call (ConsoleError e) (snd (robust_try uid b env f ?r0)))))"
    using assms by (simp add: robust_handleFileUpload_def Let_def split: prod.splits sum.splits)
  show ?thesis
    unfolding u
    by (cases "storage_upload env"; cases "onUpload_throws env")
       (simp_all add: robust_try_calls robust_try_result robust_calls_def)
qed

lemma robust_success_key:
  assumes "OnImageChange u \<in> set (form_calls (robust_handleFileUpload m b env f r))"
    and "form_calls r = []"
  shows "\<exists>uid. session_user_id env = Some uid
           \<and> StorageUpload (bucketName_of b) (client_fileName uid env f) f
               \<in> set (form_calls (robust_handleFileUpload m b env f r))"
proof (cases "session_user_id env")
  case None
  with assms show ?thesis by (simp add: robust_unauthenticated)
next
  case (Some uid)
  show ?thesis
  proof (cases "file_type f \<in> set validTypes")
    case False
    with assms Some show ?thesis by (simp add: robust_invalid_type)
  next
    case True
    show ?thesis
    proof (cases "file_size f > m * 1024 * 1024")
      case big: True
      with assms Some True show ?thesis by (simp add: robust_too_large)
    next
      case False
      from robust_runs[OF Some True False] assms(2) Some show ?thesis
        by (simp add: robust_calls_def)
    qed
  qed
qed

lemma simple_unauthenticated:
  "session_user_id env = None \<Longrightarrow>
   simple_handleFileUpload m b env f r
     = setUploadError ''You must be logged in to upload images'' r"
  by (simp add: simple_handleFileUpload_def)

lemma fixed_unauthenticated:
  "session_user_id env = None \<Longrightarrow>
   fixed_handleFileUpload mp env f r
     = setUploadError ''You must be logged in to upload files'' r"
  by (simp add: fixed_handleFileUpload_def)

lemma guest_session: "session_user_id guest_env = None"
  by (simp add: guest_env_def)

lemma example_robust_calls:
  "form_calls (robust_handleFileUpload 10 ''recipes'' example_env example_file idle_form)
     = [StorageUpload ''make-cfac176d-recipes'' ''user-1/1700000000000-9a7bq.jpg'' example_file,
        GetPublicUrl ''make-cfac176d-recipes'' ''user-1/1700000000000-9a7bq.jpg'',
        OnImageChange ''https://store.example/recipes/1700000000000-k3j2x9a7bq.jpg'',
        SetTimeout 2000]"
proof -
  have t: "file_type example_file \<in> set validTypes"
    and s: "\<not> file_size example_file > 10 * 1024 * 1024"
    by (simp_all add: example_file_def validTypes_def)
  have k: "client_fileName ''user-1'' example_env example_file = ''user-1/1700000000000-9a7bq.jpg''"
    by (simp add: client_fileName_def example_extension example_date timestamp_text
        example_env_more)
  show ?thesis
    by (simp add: robust_runs[OF example_env_more(3) t s] robust_calls_def k example_env_fields
        example_env_more truthy_def bucketName_of_def idle_form_def)
qed

section \<open>Runs of the server routes\<close>

lemma no_header_no_user: "getUserFromToken senv None = (None, Some ''No token provided'')"
  by (simp add: getUserFromToken_def)

lemma example_token: "getUserFromToken example_server (Some ''Bearer token-1'') = (Some ''user-1'', None)"
  by (simp add: getUserFromToken_def example_server_def truthy_def)

lemma guest_token: "getUserFromToken example_server (authorization guest_request)
                     = (None, Some ''No token provided'')"
  by (simp add: guest_request_def no_header_no_user)

lemma unauthorized_status: "snd (unauthorized_response e) = 401"
  by (simp add: unauthorized_response_def error_response_def)

lemma upload_route_unauthenticated:
  "fst (getUserFromToken senv (authorization req)) = None \<Longrightarrow>
   upload_route senv req
     = (unauthorized_response (snd (getUserFromToken senv (authorization req))), [])"
  by (cases "getUserFromToken senv (authorization req)") (simp add: upload_route_def)

lemma upload_image_route_unauthenticated:
  "fst (getUserFromToken senv (authorization req)) = None \<Longrightarrow>
   upload_image_route senv req
     = (unauthorized_response (snd (getUserFromToken senv (authorization req))), [])"
  by (cases "getUserFromToken senv (authorization req)") (simp add: upload_image_route_def)

lemma server_fileName_format:
  "server_fileName uid senv g
     = uid @ ''/'' @ (if file_type g \<in> set videoTypes then ''videos'' else ''images'') @ ''/''
       @ string_of_nat (server_now senv) @ ''-'' @ take 8 (randomUUID senv) @ ''.''
       @ (if file_type g = ''image/webp'' then ''webp'' else file_extension (file_name g))"
  by (simp add: server_fileName_def Let_def)

lemma upload_route_ok_key:
  assumes "snd (fst (upload_route senv req)) = 200"
  shows "\<exists>uid g. fst (getUserFromToken senv (authorization req)) = Some uid
           \<and> form_file req = Some (Some g)
           \<and> StorageUpload (bucketName_of (bucket_param req)) (server_fileName uid senv g) g
               \<in> set (snd (upload_route senv req))"
  using assms
  by (cases "getUserFromToken senv (authorization req)")
     (auto simp: upload_route_def store_file_def error_response_def unauthorized_response_def
       Let_def split: option.splits if_splits)

lemma example_upload_route:
  "upload_route example_server example_request
     = (([(''fileName'', JString ''user-1/images/1700000000000-3f2a9c1e.jpg''),
          (''url'', JString ''https://store.example/object''),
          (''bucket'', JString ''make-cfac176d-recipes''),
          (''fileType'', JString ''image''),
          (''fileSize'', JNumber 2097152),
          (''mimeType'', JString ''image/jpeg''),
          (''isOptimized'', JBool False)], 200),
        [StorageUpload ''make-cfac176d-recipes'' ''user-1/images/1700000000000-3f2a9c1e.jpg''
           example_file,
         GetPublicUrl ''make-cfac176d-recipes'' ''user-1/images/1700000000000-3f2a9c1e.jpg''])"
proof -
  have k: "server_fileName ''user-1'' example_server example_file
             = ''user-1/images/1700000000000-3f2a9c1e.jpg''"
    by (simp add: server_fileName_format example_extension)
       (simp add: example_server_def example_file_def videoTypes_def timestamp_text)
  have a: "getUserFromToken example_server (authorization example_request) = (Some ''user-1'', None)"
    by (simp add: example_request_def example_token)
  have s: "store_file ''user-1'' ''recipes'' example_server example_file
     = (([(''fileName'', JString ''user-1/images/1700000000000-3f2a9c1e.jpg''),
          (''url'', JString ''https://store.example/object''),
          (''bucket'', JString ''make-cfac176d-recipes''),
          (''fileType'', JString ''image''),
          (''fileSize'', JNumber 2097152),
          (''mimeType'', JString ''image/jpeg''),
          (''isOptimized'', JBool False)], 200),
        [StorageUpload ''make-cfac176d-recipes'' ''user-1/images/1700000000000-3f2a9c1e.jpg''
           example_file,
         GetPublicUrl ''make-cfac176d-recipes'' ''user-1/images/1700000000000-3f2a9c1e.jpg''])"
    by (simp add: store_file_def k Let_def bucketName_of_def)
       (simp add: example_server_def example_file_def videoTypes_def truthy_def)
  show ?thesis
    by (simp add: upload_route_def a s)
       (simp add: example_request_def validBuckets_def example_file_def validTypes_def
         videoTypes_def s[unfolded example_file_def])
qed



subsection \<open>The run with a renamed file\<close>

lemma renamed_valid: "validateFile (maxSize example_props) renamed_file = None"
  by (simp add: validateFile_def example_props_def renamed_file_def ALLOWED_FILE_TYPES_def Let_def)

lemma renamed_compressImage:
  "compressImage (\<lambda>x. x) renamed_env renamed_file = Inr (renamed_compressed, example_metadata)"
  by (simp add: compressImage_def renamed_env_def example_env_def renamed_file_def
      compressed_result_def renamed_compressed_def example_metadata_def optimal_dimensions_def
      scale_ratio_def maxDimension_def compression_ratio_def Let_def)

lemma renamed_env_fields:
  "storage_upload renamed_env = Inr ''recipes/1700000000000-k3j2x9a7bq.png''"
  "onUpload_throws renamed_env = None"
  "date_now renamed_env = 1700000000000"
  "random_base36 renamed_env = ''0.k3j2x9a7bq''"
  "storage_public_url renamed_env = ''https://store.example/recipes/1700000000000-k3j2x9a7bq.png''"
  "session_user_id renamed_env = Some ''user-1''"
  by (simp_all add: renamed_env_def example_env_def)

lemma example_key:
  "enhanced_filePath example_props example_env example_file
     = ''recipes/1700000000000-k3j2x9a7bq.jpg''"
  by (simp add: enhanced_filePath_format example_extension example_date timestamp_text
      example_env_more example_props_fields)

lemma renamed_key:
  "enhanced_filePath example_props renamed_env renamed_file
     = ''recipes/1700000000000-k3j2x9a7bq.png''"
proof -
  have x: "file_extension (file_name renamed_file) = ''png''"
    by (simp add: file_extension_def renamed_file_def)
  show ?thesis
    by (simp add: enhanced_filePath_format x renamed_env_fields timestamp_text
        example_props_fields)
qed

lemma example_calls:
  "calls (snd (uploadFile (\<lambda>x. x) (Some ''user-1'') example_props example_env example_file (fresh idle_state)))
     = [CompressImage example_file, ToastOptimized example_metadata,
        StorageUpload ''recipe-images'' ''recipes/1700000000000-k3j2x9a7bq.jpg'' example_compressed,
        GetPublicUrl ''recipe-images'' ''recipes/1700000000000-k3j2x9a7bq.jpg'',
        OnUpload ''https://store.example/recipes/1700000000000-k3j2x9a7bq.jpg'' example_metadata,
        ToastSuccess ''Image uploaded successfully!'']"
  by (simp add: enhanced_calls_ok[OF example_authenticated example_valid example_compressImage
        example_env_fields(1,2)] example_key ratio_50_exceeds example_env_more
      example_props_fields)

lemma renamed_calls:
  "calls (snd (uploadFile (\<lambda>x. x) (Some ''user-1'') example_props renamed_env renamed_file (fresh idle_state)))
     = [CompressImage renamed_file, ToastOptimized example_metadata,
        StorageUpload ''recipe-images'' ''recipes/1700000000000-k3j2x9a7bq.png'' renamed_compressed,
        GetPublicUrl ''recipe-images'' ''recipes/1700000000000-k3j2x9a7bq.png'',
        OnUpload ''https://store.example/recipes/1700000000000-k3j2x9a7bq.png'' example_metadata,
        ToastSuccess ''Image uploaded successfully!'']"
  by (simp add: enhanced_calls_ok[OF example_authenticated renamed_valid renamed_compressImage
        renamed_env_fields(1,2)] renamed_key ratio_50_exceeds renamed_env_fields
      example_props_fields)

lemma renamed_trace:
  "trace (snd (uploadFile (\<lambda>x. x) (Some ''user-1'') example_props renamed_env renamed_file (fresh idle_state)))
     = [(Uploading, 10), (Uploading, 30), (Uploading, 50), (Uploading, 70), (Uploading, 90),
        (Success, 100)]"
  by (simp add: uploadFile_valid[OF example_authenticated renamed_valid] try_catch_trace_eq
      renamed_compressImage renamed_env_fields)

section \<open>Progress within one invocation\<close>

lemma upload_start_valid:
  "authenticated sess \<Longrightarrow> validateFile (maxSize p) f = None
     \<Longrightarrow> upload_start sess p f r0 = (AwaitCompress, try_start f (set_uploading f r0))"
  by (simp add: upload_start_def)

lemma advance_start:
  assumes "inv_stage i = NotStarted" and "authenticated (render_session first)"
    and "validateFile (maxSize (render_props first)) (inv_file i) = None"
  shows "advance rnd first False s i
     = (let r = try_start (inv_file i) (set_uploading (inv_file i) ((inv_log i)\<lparr>ui := s\<rparr>))
        in (ui r, i\<lparr>inv_stage := AwaitCompress, inv_log := r\<rparr>))"
  by (simp add: advance_def Let_def assms upload_start_valid)

lemma advance_disabled:
  "inv_stage i = NotStarted \<Longrightarrow> advance rnd first True s i = (s, i)"
  by (simp add: advance_def Let_def)

lemma advance_after_compress:
  assumes "inv_stage i = AwaitCompress"
    and "compressImage rnd (inv_env i) (inv_file i) = Inr (cf, md)"
  shows "advance rnd first disabled s i
     = (let r = try_before_store (render_props first) (inv_env i) (inv_file i) cf md
                  ((inv_log i)\<lparr>ui := s\<rparr>)
        in (ui r, i\<lparr>inv_stage := AwaitStore md, inv_log := r\<rparr>))"
  by (simp add: advance_def Let_def assms upload_after_compress_def)

lemma advance_store_failed:
  assumes "inv_stage i = AwaitStore md" and "storage_upload (inv_env i) = Inl e"
  shows "advance rnd first disabled s i
     = (let r = catch_block (render_props first) e ((inv_log i)\<lparr>ui := s\<rparr>)
        in (ui r, i\<lparr>inv_stage := Settled Resolved, inv_log := r\<rparr>))"
  by (simp add: advance_def Let_def assms upload_after_store_def)

text \<open>
  An invocation that no other one overlaps, moved from its start through its two
  \<open>await\<close>s, is \<open>uploadFile\<close> with the session and the properties of the first
  render.
\<close>

lemma uploadFile_alone:
  "interleave rnd first False [0, 0, 0] (s0, [dropped env f])
     = (case uploadFile rnd (render_session first) (render_props first) env f (fresh s0) of
          (pr, r) \<Rightarrow> (ui r, [\<lparr>inv_env = env, inv_file = f, inv_stage = Settled pr, inv_log = r\<rparr>]))"
proof -
  let ?sess = "render_session first" and ?p = "render_props first"
  have l: "(inv_log (dropped env f))\<lparr>ui := s0\<rparr> = fresh s0"
    by (simp add: dropped_def fresh_def)
  show ?thesis
  proof (cases "authenticated ?sess \<and> validateFile (maxSize ?p) f = None")
    case False
    then show ?thesis
      by (auto simp: advance_def Let_def upload_start_def uploadFile_def l validateFile_truthy
          dropped_def fresh_def split: option.splits)
  next
    case True
    then show ?thesis
      by (cases "compressImage rnd env f"; cases "storage_upload env"; cases "onUpload_throws env")
         (auto simp: advance_def Let_def upload_start_def uploadFile_def l dropped_def fresh_def
           try_catch_def try_block_def try_after_compress_def upload_after_compress_def
           upload_after_store_def try_after_upload_def split: prod.splits)
  qed
qed

text \<open>
  In the snapshots of such an invocation the progress values never decrease. Past the
  guards it ends with a snapshot in the success state at progress 100, or with a
  snapshot in the error state whose progress is that of the snapshot before it.
\<close>

lemma alone_progress_monotone:
  assumes "uploadFile rnd sess p env f (fresh s0) = (outcome, r)"
  shows "sorted (map progress (snapshots r))
       \<and> (outcome = Resolved \<longrightarrow>
            snapshots r \<noteq> []
          \<and> (status (last (snapshots r)) = Success \<or> status (last (snapshots r)) = Error)
          \<and> (status (last (snapshots r)) = Success \<longrightarrow> progress (last (snapshots r)) = 100)
          \<and> (status (last (snapshots r)) = Error \<longrightarrow>
                butlast (snapshots r) \<noteq> []
              \<and> progress (last (snapshots r)) = progress (last (butlast (snapshots r)))))
       \<and> (outcome \<noteq> Resolved \<longrightarrow> snapshots r = [] \<and> ui r = s0)"
proof (cases rule: uploadFile_cases[of rnd sess p env f "fresh s0"])
  case (rejected e)
  with assms have "outcome = Rejected e" "r = fresh s0" by simp_all
  then show ?thesis by (simp add: fresh_def)
next
  case ran
  with assms have o: "outcome = Resolved" and r: "r = snd (try_catch rnd p env f (fresh s0))"
    by simp_all
  have "trace r \<in> possible_traces" unfolding r by (rule try_catch_trace)
  from trace_facts[OF this] o show ?thesis by simp
qed

lemma second_valid: "validateFile (maxSize example_props) second_file = None"
  by (simp add: validateFile_def example_props_def second_file_def ALLOWED_FILE_TYPES_def Let_def)

lemma example_render_fields:
  "render_session example_render = Some ''user-1''" "render_props example_render = example_props"
  "render_session guest_render = None" "render_props guest_render = example_props"
  by (simp_all add: example_render_def guest_render_def)

text \<open>
  Claim C3, evaluated at a failing input. The component was first rendered for user-1
  and shows the idle state. \<open>dish.jpg\<close> is dropped: the invocation sets the progress
  to 10 and 30, compresses the file, sets 50 and 70 and starts the write to the store.
  While it waits, \<open>soup.jpg\<close> is dropped on the same component. \<open>handleDrop\<close> tests
  \<open>disabled\<close> only, so a second invocation starts and sets the progress of the one
  \<open>uploadState\<close> to 10 and then 30. The store then refuses the first write, and the
  \<open>catch\<close> block of the first invocation copies the progress of the state it finds:
  the snapshots of the first invocation read 10, 30, 50, 70, 30. The sequence
  decreases, and the failed invocation has not held its last value, 70. At the moment of
  the second drop a click is refused by \<open>handleClick\<close>, which does test for an upload
  in flight. Without the second drop the same invocation ends with 70.
\<close>

theorem overlapping_drop_lowers_progress:
  "trace (inv_log (snd (interleave (\<lambda>x. x) example_render False [0, 0, 1, 0] two_drops) ! 0))
     = [(Uploading, 10), (Uploading, 30), (Uploading, 50), (Uploading, 70), (Error, 30)]
   \<and> map progress
        (snapshots
          (inv_log (snd (interleave (\<lambda>x. x) example_render False [0, 0, 1, 0] two_drops) ! 0)))
     = [10, 30, 50, 70, 30]
   \<and> \<not> sorted
          (map progress
            (snapshots
              (inv_log (snd (interleave (\<lambda>x. x) example_render False [0, 0, 1, 0] two_drops) ! 0))))
   \<and> inv_stage (snd (interleave (\<lambda>x. x) example_render False [0, 0, 1, 0] two_drops) ! 0)
     = Settled Resolved
   \<and> trace (inv_log (snd (interleave (\<lambda>x. x) example_render False [0, 0, 1, 0] two_drops) ! 1))
     = [(Uploading, 10), (Uploading, 30)]
   \<and> inv_stage (snd (interleave (\<lambda>x. x) example_render False [0, 0, 1, 0] two_drops) ! 1)
     = AwaitCompress
   \<and> status (fst (interleave (\<lambda>x. x) example_render False [0, 0] two_drops)) = Uploading
   \<and> progress (fst (interleave (\<lambda>x. x) example_render False [0, 0] two_drops)) = 70
   \<and> \<not> handleClick False (fst (interleave (\<lambda>x. x) example_render False [0, 0] two_drops))
   \<and> trace (inv_log (snd (interleave (\<lambda>x. x) example_render False [0, 0, 0] two_drops) ! 0))
     = [(Uploading, 10), (Uploading, 30), (Uploading, 50), (Uploading, 70), (Error, 70)]"
  by (simp add: two_drops_def dropped_def advance_start advance_after_compress advance_store_failed
      example_render_fields example_authenticated example_valid second_valid offline_compressImage
      example_env_fields Let_def try_start_def set_uploading_def try_before_store_def
      catch_block_def trace_def handleClick_def)

section \<open>The validation gate\<close>

lemma handleFileSelect_first:
  "handleFileSelect rnd first env (Some (f # fs)) r
     = (case uploadFile rnd (render_session first) (render_props first) env f r of
          (Resolved, r') \<Rightarrow> (None, r') | (Rejected e, r') \<Rightarrow> (Some e, r'))"
  by (simp add: handleFileSelect_def)

lemma handleDrop_enabled:
  "handleDrop rnd first False env files r = handleFileSelect rnd first env files r"
  by (simp add: handleDrop_def)

lemma handleFileSelect_invalid:
  assumes "authenticated (render_session first)"
    and "validateFile (maxSize (render_props first)) f = Some m"
  shows "handleFileSelect rnd first env (Some (f # fs)) r = (Some m, r)"
  by (simp add: handleFileSelect_first uploadFile_invalid[OF assms])

text \<open>
  Claim C1, amended. When the session check of \<open>uploadFile\<close> passes, an invocation
  fails with the invalid-type message for a file whose type is not allowed, and with the
  too-large message for a file of an allowed type that is larger than \<open>maxSize\<close>
  megabytes; the two messages differ. In both cases the invocation makes no call to the
  compression step or to the object store. The type is checked first, so a file that
  fails both checks gets the invalid-type message. The session and the \<open>maxSize\<close> that
  \<open>uploadFile\<close> tests are those that \<open>handleFileSelect\<close> gives it.
\<close>

theorem validation_gate:
  assumes "authenticated (render_session first)"
    and "file_type f \<notin> set (map fst ALLOWED_FILE_TYPES)
         \<or> file_size f > maxSize (render_props first) * (1024 * 1024)"
  shows "failed_with (handleFileSelect rnd first env (Some (f # fs)) (fresh s0))
           (if file_type f \<notin> set (map fst ALLOWED_FILE_TYPES) then invalid_type_message
            else too_large_message (maxSize (render_props first))
                   (of_nat (file_size f) / (1024 * 1024)))
       \<and> filter pipeline_call
            (calls (snd (handleFileSelect rnd first env (Some (f # fs)) (fresh s0)))) = []
       \<and> invalid_type_message
           \<noteq> too_large_message (maxSize (render_props first))
                (of_nat (file_size f) / (1024 * 1024))"
proof -
  let ?m = "if file_type f \<notin> set (map fst ALLOWED_FILE_TYPES) then invalid_type_message
            else too_large_message (maxSize (render_props first))
                   (of_nat (file_size f) / (1024 * 1024))"
  have "validateFile (maxSize (render_props first)) f = Some ?m"
  proof (cases "file_type f \<in> set (map fst ALLOWED_FILE_TYPES)")
    case False
    then show ?thesis by (simp add: validateFile_def)
  next
    case True
    with assms(2) show ?thesis by (simp add: validateFile_size)
  qed
  from handleFileSelect_invalid[OF assms(1) this]
  have "handleFileSelect rnd first env (Some (f # fs)) (fresh s0) = (Some ?m, fresh s0)" .
  then show ?thesis
    using messages_distinct by (simp add: failed_with_def fresh_def)
qed

theorem validation_gate_witness:
  "authenticated (render_session example_render)
   \<and> file_type pdf_file \<notin> set (map fst ALLOWED_FILE_TYPES)
   \<and> failed_with (handleFileSelect (\<lambda>x. x) example_render example_env (Some [pdf_file])
                    (fresh idle_state))
        ''Invalid file type. Please upload .jpg, .jpeg, .png, .webp, .gif files only.''
   \<and> filter pipeline_call
        (calls (snd (handleFileSelect (\<lambda>x. x) example_render example_env (Some [pdf_file])
                       (fresh idle_state)))) = []
   \<and> file_type big_png \<in> set (map fst ALLOWED_FILE_TYPES)
   \<and> file_size big_png > maxSize (render_props example_render) * (1024 * 1024)
   \<and> failed_with (handleFileSelect (\<lambda>x. x) example_render example_env (Some [big_png])
                    (fresh idle_state))
        ''File size too large. Maximum allowed size is 10MB. Your file is 11.0MB.''
   \<and> filter pipeline_call
        (calls (snd (handleFileSelect (\<lambda>x. x) example_render example_env (Some [big_png])
                       (fresh idle_state)))) = []
   \<and> filter pipeline_call
        (calls (snd (handleFileSelect (\<lambda>x. x) example_render example_env (Some [example_file])
                       (fresh idle_state))))
       = [CompressImage example_file,
          StorageUpload ''recipe-images'' ''recipes/1700000000000-k3j2x9a7bq.jpg'' example_compressed,
          GetPublicUrl ''recipe-images'' ''recipes/1700000000000-k3j2x9a7bq.jpg'']"
proof -
  let ?u = "uploadFile (\<lambda>x. x) (Some ''user-1'') example_props example_env example_file
              (fresh idle_state)"
  have "fst ?u = Resolved"
    by (simp add: uploadFile_valid[OF example_authenticated example_valid] try_catch_resolved)
  then obtain r where u: "?u = (Resolved, r)" by (cases ?u) simp
  then have r: "r = snd ?u" by simp
  have v: "filter pipeline_call
        (calls (snd (handleFileSelect (\<lambda>x. x) example_render example_env (Some [example_file])
                       (fresh idle_state))))
       = [CompressImage example_file,
          StorageUpload ''recipe-images'' ''recipes/1700000000000-k3j2x9a7bq.jpg'' example_compressed,
          GetPublicUrl ''recipe-images'' ''recipes/1700000000000-k3j2x9a7bq.jpg'']"
    by (simp add: handleFileSelect_first example_render_fields u) (simp add: r example_calls)
  have b: "file_type big_png \<in> set (map fst ALLOWED_FILE_TYPES)"
    and s: "file_size big_png > maxSize (render_props example_render) * (1024 * 1024)"
    and m: "maxSize (render_props example_render) = 10"
    and a: "authenticated (render_session example_render)"
    by (simp_all add: big_png_def ALLOWED_FILE_TYPES_def example_props_def example_render_def
        authenticated_def truthy_def)
  from validation_gate[OF a, of pdf_file "\<lambda>x. x" example_env "[]" idle_state]
    validation_gate[OF a, of big_png "\<lambda>x. x" example_env "[]" idle_state]
    pdf_not_allowed b s a
  show ?thesis
    by (simp add: m big_png_message invalid_type_message_text v)
qed

text \<open>
  The claim as stated does not hold when the session check fails: the check comes
  before the validation, and the invocation fails with its message, not with the
  validator's.
\<close>

theorem validation_gate_counterexample:
  "file_type pdf_file \<notin> set (map fst ALLOWED_FILE_TYPES)
   \<and> render_session guest_render = None
   \<and> handleFileSelect (\<lambda>x. x) guest_render guest_env (Some [pdf_file]) (fresh idle_state)
       = (Some ''User not authenticated'', fresh idle_state)
   \<and> \<not> failed_with (handleFileSelect (\<lambda>x. x) guest_render guest_env (Some [pdf_file])
                      (fresh idle_state)) invalid_type_message"
  using pdf_not_allowed uploadFile_unauthenticated[OF guest_unauthenticated]
  by (simp add: handleFileSelect_first example_render_fields failed_with_def
      invalid_type_message_text fresh_def)

section \<open>The compression ratio\<close>

text \<open>
  Claim C7, amended. The \<open>compressionRatio\<close> that \<open>compressImage\<close> returns for a
  non-empty file is the saving as a percentage, \<open>(original - final) / original * 100\<close>,
  up to the rounding of the two double operations; it is zero exactly when the sizes are
  equal and negative exactly when the result is larger. \<open>uploadFile\<close> shows the
  "Image optimized!" toast only for this metadata and only when the percentage exceeds
  10, and, once past the guards, whenever it does. After a successful upload the
  component shows "Optimized by N%" exactly when the percentage is positive.
\<close>

theorem compression_ratio_is_percentage:
  assumes "ieee_rounding rnd" and "compressImage rnd env f = Inr (compressedFile, md)"
  shows "(0 < file_size f \<longrightarrow>
            (\<exists>x. compressionRatio md = Some x
               \<and> \<bar>x - (of_nat (file_size f) - of_nat (file_size compressedFile))
                            / of_nat (file_size f) * 100\<bar>
                   \<le> \<bar>(of_nat (file_size f) - of_nat (file_size compressedFile))
                            / of_nat (file_size f) * 100\<bar> / 2 ^ 51
               \<and> (x = 0 \<longleftrightarrow> file_size compressedFile = file_size f)
               \<and> (x < 0 \<longleftrightarrow> file_size f < file_size compressedFile)))
       \<and> (\<forall>m. ToastOptimized m \<in> set (calls (snd (uploadFile rnd sess p env f (fresh s0)))) \<longrightarrow>
               m = md \<and> (\<exists>x. compressionRatio md = Some x \<and> 10 < x))
       \<and> (authenticated sess \<and> validateFile (maxSize p) f = None \<longrightarrow>
            (ToastOptimized md \<in> set (calls (snd (uploadFile rnd sess p env f (fresh s0))))
             \<longleftrightarrow> (\<exists>x. compressionRatio md = Some x \<and> 10 < x)))
       \<and> (authenticated sess \<and> validateFile (maxSize p) f = None
            \<and> storage_upload env = Inr dp \<and> onUpload_throws env = None \<longrightarrow>
            (shows_optimized (ui (snd (uploadFile rnd sess p env f (fresh s0))))
             \<longleftrightarrow> (\<exists>x. compressionRatio md = Some x \<and> 0 < x)))"
proof -
  have cr: "compressionRatio md = compression_ratio rnd (file_size f) (file_size compressedFile)"
    using assms(2)
    by (auto simp: compressImage_def compressed_result_def Let_def
        split: option.splits if_splits)
  have ex: "exceeds_10 (compressionRatio md) \<longleftrightarrow> (\<exists>x. compressionRatio md = Some x \<and> 10 < x)"
    by (simp add: exceeds_10_def split: option.splits)
  have toast: "ToastOptimized m \<in> set (calls (snd (try_catch rnd p env f (fresh s0))))
                 \<longleftrightarrow> m = md \<and> exceeds_10 (compressionRatio md)" for m
    using ToastOptimized_in_calls[OF assms(2), of m p "fresh s0"] by (simp add: fresh_def)
  have only: "ToastOptimized m \<in> set (calls (snd (uploadFile rnd sess p env f (fresh s0)))) \<longrightarrow>
               m = md \<and> exceeds_10 (compressionRatio md)" for m
  proof (cases rule: uploadFile_cases[of rnd sess p env f "fresh s0"])
    case (rejected e)
    then show ?thesis by (simp add: fresh_def)
  next
    case ran
    then show ?thesis using toast by simp
  qed
  have iff: "authenticated sess \<and> validateFile (maxSize p) f = None \<longrightarrow>
            (ToastOptimized md \<in> set (calls (snd (uploadFile rnd sess p env f (fresh s0))))
             \<longleftrightarrow> exceeds_10 (compressionRatio md))"
    using toast by (simp add: uploadFile_valid)
  have pct: "0 < file_size f \<longrightarrow>
            (\<exists>x. compressionRatio md = Some x
               \<and> \<bar>x - (of_nat (file_size f) - of_nat (file_size compressedFile))
                            / of_nat (file_size f) * 100\<bar>
                   \<le> \<bar>(of_nat (file_size f) - of_nat (file_size compressedFile))
                            / of_nat (file_size f) * 100\<bar> / 2 ^ 51
               \<and> (x = 0 \<longleftrightarrow> file_size compressedFile = file_size f)
               \<and> (x < 0 \<longleftrightarrow> file_size f < file_size compressedFile))"
    using compression_ratio_percent[OF assms(1), of "file_size f" "file_size compressedFile"]
    unfolding cr by blast
  have badge: "authenticated sess \<and> validateFile (maxSize p) f = None
            \<and> storage_upload env = Inr dp \<and> onUpload_throws env = None \<longrightarrow>
            (shows_optimized (ui (snd (uploadFile rnd sess p env f (fresh s0))))
             \<longleftrightarrow> (\<exists>x. compressionRatio md = Some x \<and> 0 < x))"
    using success_ui[OF _ _ assms(2), of sess p dp s0]
    by (auto simp: shows_optimized_def is_positive_iff)
  show ?thesis using pct only iff badge unfolding ex by blast
qed

theorem compression_ratio_is_percentage_witness:
  "ieee_rounding (\<lambda>x. x)
   \<and> compressImage (\<lambda>x. x) example_env example_file = Inr (example_compressed, example_metadata)
   \<and> 0 < file_size example_file
   \<and> compressionRatio example_metadata = Some 50
   \<and> file_size example_compressed \<noteq> file_size example_file
   \<and> authenticated (Some ''user-1'')
   \<and> validateFile (maxSize example_props) example_file = None
   \<and> ToastOptimized example_metadata
       \<in> set (calls (snd (uploadFile (\<lambda>x. x) (Some ''user-1'') example_props example_env example_file
                           (fresh idle_state))))
   \<and> storage_upload example_env = Inr ''recipes/1700000000000-k3j2x9a7bq.jpg''
   \<and> onUpload_throws example_env = None
   \<and> shows_optimized (ui (snd (uploadFile (\<lambda>x. x) (Some ''user-1'') example_props example_env example_file
                                  (fresh idle_state))))"
proof -
  have r: "compressionRatio example_metadata = Some 50"
    and s: "0 < file_size example_file" "file_size example_compressed \<noteq> file_size example_file"
    by (simp_all add: example_metadata_def example_file_def example_compressed_def)
  from compression_ratio_is_percentage[OF ieee_rounding_exact example_compressImage,
      of "Some ''user-1''" example_props idle_state "''recipes/1700000000000-k3j2x9a7bq.jpg''"]
  show ?thesis
    using r s example_authenticated example_valid example_compressImage ieee_rounding_exact
      example_env_fields(1,2)
    by simp
qed

text \<open>
  The claim as stated gives the ratio as a fraction. For a file of 2 MB compressed to
  1 MB the fraction is one half, and the value returned is 50. And a saving of 6.25 per
  cent, below the threshold of the toast, is still shown as "Optimized by 6%" after the
  upload.
\<close>

theorem compression_ratio_counterexample:
  "compressImage (\<lambda>x. x) example_env example_file = Inr (example_compressed, example_metadata)
   \<and> compressionRatio example_metadata = Some 50
   \<and> (of_nat (file_size example_file) - of_nat (file_size example_compressed))
       / of_nat (file_size example_file) = (1 / 2 :: rat)
   \<and> compressImage (\<lambda>x. x) modest_env example_file = Inr (modest_compressed, modest_metadata)
   \<and> compressionRatio modest_metadata = Some (25 / 4)
   \<and> shows_optimized (ui (snd (uploadFile (\<lambda>x. x) (Some ''user-1'') example_props modest_env example_file
                                  (fresh idle_state))))"
  using example_compressImage modest_compressImage
  by (simp add: success_ui[OF example_authenticated example_valid modest_compressImage
        modest_env_fields(1,2)] shows_optimized_def is_positive_def)
     (simp add: example_metadata_def example_file_def example_compressed_def modest_metadata_def)

section \<open>Failures that reach nobody\<close>

text \<open>
  Claim C8, evaluated at a failing input. A PDF dropped on the component by a logged-in
  user, for whom the component was first rendered: \<open>uploadFile\<close> throws the
  validator's message before its \<open>try\<close> block, and \<open>handleFileSelect\<close> has dropped
  the promise. The rejection is handled by nobody:
  the state stays idle, and neither \<open>onError\<close> nor a toast is called, although the
  caller passed an \<open>onError\<close> callback.
\<close>

theorem validation_failure_unhandled:
  "handleFileSelect (\<lambda>x. x) example_render example_env (Some [pdf_file]) (fresh idle_state)
     = (Some ''Invalid file type. Please upload .jpg, .jpeg, .png, .webp, .gif files only.'',
        fresh idle_state)
   \<and> render_session example_render = Some ''user-1''
   \<and> has_onError (render_props example_render)
   \<and> calls (fresh idle_state) = []
   \<and> status (ui (fresh idle_state)) = Idle"
proof -
  have "validateFile (maxSize example_props) pdf_file = Some invalid_type_message"
    using pdf_not_allowed by (simp add: validateFile_def)
  from uploadFile_invalid[OF example_authenticated this]
  show ?thesis
    by (simp add: handleFileSelect_def invalid_type_message_text fresh_def idle_state_def
        example_props_def example_render_def)
qed

section \<open>The storage key\<close>

text \<open>
  Claim C4, amended. A successful invocation writes its object under a key of the form
  prefix, \<open>Date.now()\<close>, \<open>-\<close>, random suffix, \<open>.\<close>, extension. In
  \<open>EnhancedImageUpload\<close> the prefix is the \<open>path\<close> property and a slash, or nothing
  when \<open>path\<close> is empty, and the suffix is \<open>Math.random()\<close> in base 36 without its
  first two characters. In \<open>RobustImageUpload\<close> the prefix is the user's id and a slash,
  and the suffix drops seven characters. The server route puts \<open>images/\<close> or
  \<open>videos/\<close> after the user's id, takes eight characters of a UUID, and writes
  \<open>webp\<close> for the type \<open>image/webp\<close>. Everywhere else the extension is the text
  after the last dot of the original file name, the whole name when it has no dot,
  whatever the MIME type is.
\<close>

theorem storage_key_format:
  "(snapshots (snd (uploadFile rnd sess p env f (fresh s0))) \<noteq> []
      \<and> status (last (snapshots (snd (uploadFile rnd sess p env f (fresh s0))))) = Success \<longrightarrow>
      (\<exists>cf. StorageUpload (bucket p)
               ((if path p = [] then [] else path p @ ''/'')
                @ string_of_nat (date_now env) @ ''-'' @ drop 2 (random_base36 env)
                @ ''.'' @ file_extension (file_name f)) cf
             \<in> set (calls (snd (uploadFile rnd sess p env f (fresh s0))))))
   \<and> (form_calls r = []
        \<and> OnImageChange u \<in> set (form_calls (robust_handleFileUpload m b env f r)) \<longrightarrow>
        (\<exists>uid. session_user_id env = Some uid
           \<and> StorageUpload (bucketName_of b)
                (uid @ ''/'' @ string_of_nat (date_now env) @ ''-'' @ drop 7 (random_base36 env)
                 @ ''.'' @ file_extension (file_name f)) f
               \<in> set (form_calls (robust_handleFileUpload m b env f r))))
   \<and> (snd (fst (upload_route senv req)) = 200 \<longrightarrow>
        (\<exists>uid g. fst (getUserFromToken senv (authorization req)) = Some uid
           \<and> form_file req = Some (Some g)
           \<and> StorageUpload (bucketName_of (bucket_param req))
                (uid @ ''/'' @ (if file_type g \<in> set videoTypes then ''videos'' else ''images'')
                 @ ''/'' @ string_of_nat (server_now senv) @ ''-'' @ take 8 (randomUUID senv)
                 @ ''.'' @ (if file_type g = ''image/webp'' then ''webp''
                            else file_extension (file_name g))) g
               \<in> set (snd (upload_route senv req))))
   \<and> CHR ''.'' \<notin> set (file_extension n)
   \<and> (CHR ''.'' \<notin> set n \<longrightarrow> file_extension n = n)
   \<and> (CHR ''.'' \<in> set n \<longrightarrow> (\<exists>stem. n = stem @ ''.'' @ file_extension n))"
proof -
  have a: "snapshots (snd (uploadFile rnd sess p env f (fresh s0))) \<noteq> []
      \<and> status (last (snapshots (snd (uploadFile rnd sess p env f (fresh s0))))) = Success \<longrightarrow>
      (\<exists>cf. StorageUpload (bucket p)
               ((if path p = [] then [] else path p @ ''/'')
                @ string_of_nat (date_now env) @ ''-'' @ drop 2 (random_base36 env)
                @ ''.'' @ file_extension (file_name f)) cf
             \<in> set (calls (snd (uploadFile rnd sess p env f (fresh s0)))))"
    using enhanced_success_key[of rnd sess p env f s0] unfolding enhanced_filePath_format by blast
  have b: "form_calls r = []
        \<and> OnImageChange u \<in> set (form_calls (robust_handleFileUpload m b env f r)) \<longrightarrow>
        (\<exists>uid. session_user_id env = Some uid
           \<and> StorageUpload (bucketName_of b)
                (uid @ ''/'' @ string_of_nat (date_now env) @ ''-'' @ drop 7 (random_base36 env)
                 @ ''.'' @ file_extension (file_name f)) f
               \<in> set (form_calls (robust_handleFileUpload m b env f r)))"
    using robust_success_key[of u m b env f r] unfolding client_fileName_def by blast
  have c: "snd (fst (upload_route senv req)) = 200 \<longrightarrow>
        (\<exists>uid g. fst (getUserFromToken senv (authorization req)) = Some uid
           \<and> form_file req = Some (Some g)
           \<and> StorageUpload (bucketName_of (bucket_param req))
                (uid @ ''/'' @ (if file_type g \<in> set videoTypes then ''videos'' else ''images'')
                 @ ''/'' @ string_of_nat (server_now senv) @ ''-'' @ take 8 (randomUUID senv)
                 @ ''.'' @ (if file_type g = ''image/webp'' then ''webp''
                            else file_extension (file_name g))) g
               \<in> set (snd (upload_route senv req)))"
    using upload_route_ok_key[of senv req] unfolding server_fileName_format by blast
  show ?thesis
    using a b c file_extension_no_dot[of n] file_extension_whole[of n] file_extension_suffix[of n]
    by blast
qed

theorem storage_key_format_witness:
  "snapshots (snd (uploadFile (\<lambda>x. x) (Some ''user-1'') example_props example_env example_file (fresh idle_state)))
     \<noteq> []
   \<and> status (last (snapshots (snd (uploadFile (\<lambda>x. x) (Some ''user-1'') example_props example_env example_file
                                      (fresh idle_state))))) = Success
   \<and> StorageUpload ''recipe-images'' ''recipes/1700000000000-k3j2x9a7bq.jpg'' example_compressed
       \<in> set (calls (snd (uploadFile (\<lambda>x. x) (Some ''user-1'') example_props example_env example_file
                           (fresh idle_state))))
   \<and> form_calls idle_form = []
   \<and> OnImageChange ''https://store.example/recipes/1700000000000-k3j2x9a7bq.jpg''
       \<in> set (form_calls (robust_handleFileUpload 10 ''recipes'' example_env example_file idle_form))
   \<and> StorageUpload ''make-cfac176d-recipes'' ''user-1/1700000000000-9a7bq.jpg'' example_file
       \<in> set (form_calls (robust_handleFileUpload 10 ''recipes'' example_env example_file idle_form))
   \<and> snd (fst (upload_route example_server example_request)) = 200
   \<and> StorageUpload ''make-cfac176d-recipes'' ''user-1/images/1700000000000-3f2a9c1e.jpg''
         example_file
       \<in> set (snd (upload_route example_server example_request))
   \<and> CHR ''.'' \<in> set ''dish.jpg'' \<and> file_extension ''dish.jpg'' = ''jpg''
   \<and> CHR ''.'' \<notin> set ''README'' \<and> file_extension ''README'' = ''README''"
proof -
  let ?r = "snd (uploadFile (\<lambda>x. x) (Some ''user-1'') example_props example_env example_file (fresh idle_state))"
  have n: "snapshots ?r \<noteq> []" by (simp add: trace_nonempty example_trace)
  have s: "status (last (snapshots ?r)) = Success" by (simp add: trace_last n example_trace)
  have x: "file_extension ''dish.jpg'' = ''jpg''" "file_extension ''README'' = ''README''"
    by (simp_all add: file_extension_def)
  from storage_key_format[of "\<lambda>x. x" "Some ''user-1''" example_props example_env example_file idle_state
      idle_form "''https://store.example/recipes/1700000000000-k3j2x9a7bq.jpg''" 10 "''recipes''"
      example_server example_request "''dish.jpg''"]
    storage_key_format[of "\<lambda>x. x" "Some ''user-1''" example_props example_env example_file idle_state
      idle_form "''https://store.example/recipes/1700000000000-k3j2x9a7bq.jpg''" 10 "''recipes''"
      example_server example_request "''README''"]
  show ?thesis
    using n s x by (simp add: example_calls example_robust_calls example_upload_route)
       (simp add: idle_form_def)
qed

text \<open>
  The claim as stated fails for a JPEG whose name ends in \<open>.png\<close>: the object is
  written with the type \<open>image/jpeg\<close> under a key that ends in \<open>.png\<close>, which is not
  an extension of that type in \<open>ALLOWED_FILE_TYPES\<close>, and the key starts with the
  \<open>path\<close> property, not with the owner's id.
\<close>

theorem storage_key_extension_counterexample:
  "snapshots (snd (uploadFile (\<lambda>x. x) (Some ''user-1'') example_props renamed_env renamed_file (fresh idle_state)))
     \<noteq> []
   \<and> status (last (snapshots (snd (uploadFile (\<lambda>x. x) (Some ''user-1'') example_props renamed_env renamed_file
                                      (fresh idle_state))))) = Success
   \<and> StorageUpload ''recipe-images'' ''recipes/1700000000000-k3j2x9a7bq.png'' renamed_compressed
       \<in> set (calls (snd (uploadFile (\<lambda>x. x) (Some ''user-1'') example_props renamed_env renamed_file
                           (fresh idle_state))))
   \<and> file_type renamed_compressed = ''image/jpeg''
   \<and> map_of ALLOWED_FILE_TYPES ''image/jpeg'' = Some [''.jpg'', ''.jpeg'']
   \<and> session_user_id renamed_env = Some ''user-1''
   \<and> \<not> prefix ''user-1/'' ''recipes/1700000000000-k3j2x9a7bq.png''"
proof -
  let ?r = "snd (uploadFile (\<lambda>x. x) (Some ''user-1'') example_props renamed_env renamed_file (fresh idle_state))"
  have n: "snapshots ?r \<noteq> []" by (simp add: trace_nonempty renamed_trace)
  have s: "status (last (snapshots ?r)) = Success" by (simp add: trace_last n renamed_trace)
  show ?thesis
    using n s
    by (simp add: renamed_calls renamed_env_fields renamed_compressed_def ALLOWED_FILE_TYPES_def)
qed

section \<open>Two uploads in the same millisecond\<close>

lemma client_fileName_eq_iff:
  assumes "date_now env1 = date_now env2"
  shows "client_fileName uid env1 f1 = client_fileName uid env2 f2
         \<longleftrightarrow> drop 7 (random_base36 env1) = drop 7 (random_base36 env2)
           \<and> file_extension (file_name f1) = file_extension (file_name f2)"
proof
  assume eq: "client_fileName uid env1 f1 = client_fileName uid env2 f2"
  let ?a = "uid @ ''/'' @ string_of_nat (date_now env1) @ ''-'' @ drop 7 (random_base36 env1)"
  let ?b = "uid @ ''/'' @ string_of_nat (date_now env2) @ ''-'' @ drop 7 (random_base36 env2)"
  from eq have "?a @ ''.'' @ file_extension (file_name f1)
              = ?b @ ''.'' @ file_extension (file_name f2)"
    by (simp add: client_fileName_def)
  then have "?a = ?b \<and> file_extension (file_name f1) = file_extension (file_name f2)"
    by (rule key_tail_cancel)
  then show "drop 7 (random_base36 env1) = drop 7 (random_base36 env2)
           \<and> file_extension (file_name f1) = file_extension (file_name f2)"
    using assms by simp
next
  assume "drop 7 (random_base36 env1) = drop 7 (random_base36 env2)
           \<and> file_extension (file_name f1) = file_extension (file_name f2)"
  then show "client_fileName uid env1 f1 = client_fileName uid env2 f2"
    using assms by (simp add: client_fileName_def)
qed

lemma enhanced_filePath_eq_iff:
  assumes "date_now env1 = date_now env2"
  shows "enhanced_filePath p env1 f1 = enhanced_filePath p env2 f2
         \<longleftrightarrow> drop 2 (random_base36 env1) = drop 2 (random_base36 env2)
           \<and> file_extension (file_name f1) = file_extension (file_name f2)"
proof
  assume eq: "enhanced_filePath p env1 f1 = enhanced_filePath p env2 f2"
  let ?pre = "if truthy (path p) then path p @ ''/'' else []"
  let ?a = "?pre @ string_of_nat (date_now env1) @ ''-'' @ drop 2 (random_base36 env1)"
  let ?b = "?pre @ string_of_nat (date_now env2) @ ''-'' @ drop 2 (random_base36 env2)"
  from eq have "?a @ ''.'' @ file_extension (file_name f1)
              = ?b @ ''.'' @ file_extension (file_name f2)"
    by (simp add: enhanced_filePath_def Let_def split: if_splits)
  then have "?a = ?b \<and> file_extension (file_name f1) = file_extension (file_name f2)"
    by (rule key_tail_cancel)
  then show "drop 2 (random_base36 env1) = drop 2 (random_base36 env2)
           \<and> file_extension (file_name f1) = file_extension (file_name f2)"
    using assms by simp
next
  assume "drop 2 (random_base36 env1) = drop 2 (random_base36 env2)
           \<and> file_extension (file_name f1) = file_extension (file_name f2)"
  then show "enhanced_filePath p env1 f1 = enhanced_filePath p env2 f2"
    using assms by (simp add: enhanced_filePath_def Let_def)
qed

text \<open>
  Claim C5, amended. Two keys built for the same owner (or the same \<open>path\<close>) in the
  same millisecond are equal exactly when the random suffixes are equal and the file
  extensions are equal. The suffix is what is left of \<open>Math.random().toString(36)\<close>
  after its first seven characters (two in \<open>EnhancedImageUpload\<close>).
\<close>

theorem storage_keys_equal_iff:
  assumes "date_now env1 = date_now env2"
  shows "(client_fileName uid env1 f1 = client_fileName uid env2 f2
           \<longleftrightarrow> drop 7 (random_base36 env1) = drop 7 (random_base36 env2)
             \<and> file_extension (file_name f1) = file_extension (file_name f2))
       \<and> (enhanced_filePath p env1 f1 = enhanced_filePath p env2 f2
           \<longleftrightarrow> drop 2 (random_base36 env1) = drop 2 (random_base36 env2)
             \<and> file_extension (file_name f1) = file_extension (file_name f2))"
  using client_fileName_eq_iff[OF assms] enhanced_filePath_eq_iff[OF assms] by blast

theorem storage_keys_equal_iff_witness:
  "date_now example_env = date_now half_env
   \<and> drop 7 (random_base36 example_env) \<noteq> drop 7 (random_base36 half_env)
   \<and> client_fileName ''user-1'' example_env example_file
       \<noteq> client_fileName ''user-1'' half_env example_file
   \<and> drop 2 (random_base36 half_env) \<noteq> drop 2 (random_base36 quarter_env)
   \<and> enhanced_filePath example_props half_env example_file
       \<noteq> enhanced_filePath example_props quarter_env example_file"
proof -
  have d: "date_now example_env = date_now half_env" "date_now half_env = date_now quarter_env"
    by (simp_all add: example_date)
  have r: "drop 7 (random_base36 example_env) \<noteq> drop 7 (random_base36 half_env)"
    "drop 2 (random_base36 half_env) \<noteq> drop 2 (random_base36 quarter_env)"
    by (simp_all add: example_env_def half_env_def quarter_env_def)
  from storage_keys_equal_iff[OF d(1), of "''user-1''" example_file example_file example_props]
    storage_keys_equal_iff[OF d(2), of "''user-1''" example_file example_file example_props]
  show ?thesis using d r by simp
qed

lemma collide_robust_calls:
  "form_calls (robust_handleFileUpload 10 ''recipes'' half_env example_file idle_form)
     = [StorageUpload ''make-cfac176d-recipes'' ''user-1/1700000000000-.jpg'' example_file,
        GetPublicUrl ''make-cfac176d-recipes'' ''user-1/1700000000000-.jpg'',
        OnImageChange ''https://store.example/recipes/1700000000000-k3j2x9a7bq.jpg'',
        SetTimeout 2000]"
  "form_calls (robust_handleFileUpload 10 ''recipes'' quarter_env example_file idle_form)
     = [StorageUpload ''make-cfac176d-recipes'' ''user-1/1700000000000-.jpg'' example_file,
        GetPublicUrl ''make-cfac176d-recipes'' ''user-1/1700000000000-.jpg'',
        OnImageChange ''https://store.example/recipes/1700000000000-k3j2x9a7bq.jpg'',
        SetTimeout 2000]"
proof -
  have t: "file_type example_file \<in> set validTypes"
    and s: "\<not> file_size example_file > 10 * 1024 * 1024"
    by (simp_all add: example_file_def validTypes_def)
  have u: "session_user_id half_env = Some ''user-1''"
    "session_user_id quarter_env = Some ''user-1''"
    by (simp_all add: half_env_def quarter_env_def example_env_def)
  have k: "client_fileName ''user-1'' half_env example_file = ''user-1/1700000000000-.jpg''"
    "client_fileName ''user-1'' quarter_env example_file = ''user-1/1700000000000-.jpg''"
    by (simp_all add: client_fileName_def example_extension example_date timestamp_text)
       (simp_all add: half_env_def quarter_env_def)
  have e: "storage_upload half_env = storage_upload example_env"
    "storage_upload quarter_env = storage_upload example_env"
    "onUpload_throws half_env = None" "onUpload_throws quarter_env = None"
    "storage_public_url half_env = storage_public_url example_env"
    "storage_public_url quarter_env = storage_public_url example_env"
    by (simp_all add: half_env_def quarter_env_def example_env_def)
  show "form_calls (robust_handleFileUpload 10 ''recipes'' half_env example_file idle_form)
     = [StorageUpload ''make-cfac176d-recipes'' ''user-1/1700000000000-.jpg'' example_file,
        GetPublicUrl ''make-cfac176d-recipes'' ''user-1/1700000000000-.jpg'',
        OnImageChange ''https://store.example/recipes/1700000000000-k3j2x9a7bq.jpg'',
        SetTimeout 2000]"
    by (simp add: robust_runs[OF u(1) t s] robust_calls_def k e example_env_fields
        example_env_more truthy_def bucketName_of_def idle_form_def)
  show "form_calls (robust_handleFileUpload 10 ''recipes'' quarter_env example_file idle_form)
     = [StorageUpload ''make-cfac176d-recipes'' ''user-1/1700000000000-.jpg'' example_file,
        GetPublicUrl ''make-cfac176d-recipes'' ''user-1/1700000000000-.jpg'',
        OnImageChange ''https://store.example/recipes/1700000000000-k3j2x9a7bq.jpg'',
        SetTimeout 2000]"
    by (simp add: robust_runs[OF u(2) t s] robust_calls_def k e example_env_fields
        example_env_more truthy_def bucketName_of_def idle_form_def)
qed

text \<open>
  The claim as stated fails: the draws 0.5 and 0.25 print as \<open>0.i\<close> and \<open>0.9\<close>, the
  suffix of both is empty, and two uploads of the same user in the same millisecond get
  the same key.
\<close>

theorem storage_keys_collide_counterexample:
  "session_user_id half_env = session_user_id quarter_env
   \<and> date_now half_env = date_now quarter_env
   \<and> random_base36 half_env = ''0.i'' \<and> random_base36 quarter_env = ''0.9''
   \<and> client_fileName ''user-1'' half_env example_file = ''user-1/1700000000000-.jpg''
   \<and> client_fileName ''user-1'' quarter_env example_file = ''user-1/1700000000000-.jpg''
   \<and> StorageUpload ''make-cfac176d-recipes'' ''user-1/1700000000000-.jpg'' example_file
       \<in> set (form_calls (robust_handleFileUpload 10 ''recipes'' half_env example_file idle_form))
   \<and> StorageUpload ''make-cfac176d-recipes'' ''user-1/1700000000000-.jpg'' example_file
       \<in> set (form_calls (robust_handleFileUpload 10 ''recipes'' quarter_env example_file
                            idle_form))"
  by (simp add: client_fileName_def example_date example_extension timestamp_text
      collide_robust_calls)
     (simp add: half_env_def quarter_env_def)

section \<open>The message for a file that is too large\<close>

text \<open>
  Claim C6, amended. For a file of an allowed type that is larger than the limit,
  \<open>validateFile\<close> of \<open>EnhancedImageUpload\<close> returns a message that contains the limit
  followed by \<open>MB\<close> and the size followed by \<open>MB\<close>; the limit is printed as the decimal
  numeral of the number of megabytes, and the size with one digit after the point, within
  a twentieth of a megabyte of the size. \<open>RobustImageUpload\<close> reports such a file with a
  message that names the limit only.
\<close>

theorem too_large_message_cites_limit_and_size:
  assumes "file_type f \<in> set (map fst ALLOWED_FILE_TYPES)"
    and "file_size f > limit * (1024 * 1024)"
  shows "(\<exists>m. validateFile limit f = Some m
            \<and> sublist (string_of_nat limit @ ''MB'') m
            \<and> sublist (toFixed1 (of_nat (file_size f) / (1024 * 1024)) @ ''MB'') m)
       \<and> nat_of_string (string_of_nat limit) = limit
       \<and> (\<exists>a b. toFixed1 (of_nat (file_size f) / (1024 * 1024))
                   = string_of_nat a @ ''.'' @ [digit_char b] \<and> b < 10
               \<and> \<bar>of_nat (10 * a + b) / 10 - (of_nat (file_size f) :: rat) / (1024 * 1024)\<bar>
                   \<le> 1 / 20)
       \<and> (session_user_id env = Some uid \<and> file_type f \<in> set validTypes \<longrightarrow>
            robust_handleFileUpload limit b env f r
              = setUploadError (''File size must be less than '' @ string_of_nat limit @ ''MB'') r)"
proof -
  let ?x = "(of_nat (file_size f) :: rat) / (1024 * 1024)"
  have v: "validateFile limit f = Some (too_large_message limit ?x)"
    using assms by (simp add: validateFile_size)
  have x0: "0 \<le> ?x" by simp
  have big: "file_size f > limit * 1024 * 1024" using assms(2) by simp
  show ?thesis
    using v too_large_message_sublists[where n = limit and x = ?x] nat_of_string_string_of_nat[of limit]
      toFixed1_reads[OF x0] robust_too_large[OF _ _ big, of env uid b r]
    by simp
qed

theorem too_large_message_cites_limit_and_size_witness:
  "file_type big_png \<in> set (map fst ALLOWED_FILE_TYPES)
   \<and> file_size big_png > 10 * (1024 * 1024)
   \<and> validateFile 10 big_png
       = Some ''File size too large. Maximum allowed size is 10MB. Your file is 11.0MB.''
   \<and> sublist ''10MB'' ''File size too large. Maximum allowed size is 10MB. Your file is 11.0MB.''
   \<and> sublist ''11.0MB'' ''File size too large. Maximum allowed size is 10MB. Your file is 11.0MB.''
   \<and> session_user_id example_env = Some ''user-1''
   \<and> file_type big_png \<in> set validTypes
   \<and> robust_handleFileUpload 10 ''recipes'' example_env big_png idle_form
       = setUploadError ''File size must be less than 10MB'' idle_form"
proof -
  have t: "file_type big_png \<in> set (map fst ALLOWED_FILE_TYPES)"
    and s: "file_size big_png > 10 * (1024 * 1024)"
    and u: "session_user_id example_env = Some ''user-1''"
    and v: "file_type big_png \<in> set validTypes"
    by (simp_all add: big_png_def ALLOWED_FILE_TYPES_def example_env_def validTypes_def)
  have ten: "string_of_nat 10 = ''10''" by (simp add: string_of_nat.simps digit_char_def)
  have fx: "toFixed1 (of_nat (file_size big_png) / 1048576) = ''11.0''"
    by (simp add: toFixed1_def big_png_def) code_simp
  note m = big_png_message
  from too_large_message_cites_limit_and_size[OF t s, of example_env "''user-1''" "''recipes''" idle_form]
  show ?thesis using t s u v by (simp add: ten fx validateFile_size m)
qed

text \<open>
  The claim as stated fails in \<open>RobustImageUpload\<close>: for a PNG of 11 MB against a limit
  of 10 MB its message does not contain the size.
\<close>

theorem robust_message_omits_size_counterexample:
  "session_user_id example_env = Some ''user-1''
   \<and> file_type big_png \<in> set validTypes
   \<and> file_size big_png > 10 * 1024 * 1024
   \<and> uploadError (form (robust_handleFileUpload 10 ''recipes'' example_env big_png idle_form))
       = ''File size must be less than 10MB''
   \<and> \<not> sublist ''11.0MB'' ''File size must be less than 10MB''"
proof -
  have u: "session_user_id example_env = Some ''user-1''"
    and v: "file_type big_png \<in> set validTypes"
    and s: "file_size big_png > 10 * 1024 * 1024"
    by (simp_all add: big_png_def example_env_def validTypes_def)
  have ten: "string_of_nat 10 = ''10''" by (simp add: string_of_nat.simps digit_char_def)
  have n: "\<not> sublist ''11.0MB'' ''File size must be less than 10MB''" by code_simp
  show ?thesis using u v s n by (simp add: robust_too_large[OF u v s] ten)
qed

section \<open>Uploads without a session\<close>

text \<open>
  Each entry point has the check for a user as its first guard. \<open>uploadFile\<close>, for
  the session it closes over, rejects with "User not authenticated" and returns the run
  as it was; the three form components, for the user at the call, set the login error
  and nothing else (no call, no progress); the two server routes answer 401 with no call
  to the store, whatever file the request carries.
\<close>

lemma guarded_entry_points_stop:
  "(\<not> authenticated sess \<longrightarrow>
      uploadFile rnd sess p env f r = (Rejected ''User not authenticated'', r))
   \<and> (session_user_id env = None \<longrightarrow>
        robust_handleFileUpload m b env f fr
          = setUploadError ''You must be logged in to upload images'' fr
      \<and> simple_handleFileUpload m b env f fr
          = setUploadError ''You must be logged in to upload images'' fr
      \<and> fixed_handleFileUpload mp env f fr
          = setUploadError ''You must be logged in to upload files'' fr
      \<and> form_calls (setUploadError e fr) = form_calls fr
      \<and> progress_log (setUploadError e fr) = progress_log fr)
   \<and> (fst (getUserFromToken senv (authorization req)) = None \<longrightarrow>
        snd (upload_route senv req) = []
      \<and> snd (fst (upload_route senv req)) = 401
      \<and> snd (upload_image_route senv req) = []
      \<and> snd (fst (upload_image_route senv req)) = 401
      \<and> fst (upload_route senv req) = fst (upload_route senv (req\<lparr>form_file := other\<rparr>)))"
  by (simp add: uploadFile_unauthenticated robust_unauthenticated simple_unauthenticated
      fixed_unauthenticated upload_route_unauthenticated upload_image_route_unauthenticated
      unauthorized_status)

lemma guest_env_fields:
  "storage_upload guest_env = Inr ''recipes/1700000000000-k3j2x9a7bq.jpg''"
  "onUpload_throws guest_env = None"
  "storage_public_url guest_env = ''https://store.example/recipes/1700000000000-k3j2x9a7bq.jpg''"
  by (simp_all add: guest_env_def example_env_def)

lemma guest_compressImage:
  "compressImage (\<lambda>x. x) guest_env example_file = Inr (example_compressed, example_metadata)"
  by (simp add: compressImage_def guest_env_def example_env_def example_file_def
      compressed_result_def example_compressed_def example_metadata_def optimal_dimensions_def
      scale_ratio_def maxDimension_def compression_ratio_def Let_def)

lemma guest_key:
  "enhanced_filePath example_props guest_env example_file = ''recipes/1700000000000-k3j2x9a7bq.jpg''"
  using example_key by (simp add: enhanced_filePath_def guest_env_def)

text \<open>
  Claim C9, evaluated at a failing input. \<open>EnhancedImageUpload\<close> is first rendered
  for user-1; the session then ends, so that the auth context holds no session, and a
  JPEG is dropped on the component. \<open>handleFileSelect\<close> is the function of the first
  render and calls the \<open>uploadFile\<close> of the first render, whose \<open>session\<close> is still
  that of user-1: the guard passes, the file is validated and compressed, written to the
  store, and the upload ends in the success state.
\<close>

theorem logged_out_upload_proceeds:
  "render_session example_render = Some ''user-1''
   \<and> session_user_id guest_env = None
   \<and> fst (handleFileSelect (\<lambda>x. x) example_render guest_env (Some [example_file])
            (fresh idle_state)) = None
   \<and> calls (snd (handleFileSelect (\<lambda>x. x) example_render guest_env (Some [example_file])
                   (fresh idle_state)))
       = [CompressImage example_file, ToastOptimized example_metadata,
          StorageUpload ''recipe-images'' ''recipes/1700000000000-k3j2x9a7bq.jpg'' example_compressed,
          GetPublicUrl ''recipe-images'' ''recipes/1700000000000-k3j2x9a7bq.jpg'',
          OnUpload ''https://store.example/recipes/1700000000000-k3j2x9a7bq.jpg'' example_metadata,
          ToastSuccess ''Image uploaded successfully!'']
   \<and> status (ui (snd (handleFileSelect (\<lambda>x. x) example_render guest_env (Some [example_file])
                        (fresh idle_state)))) = Success"
proof -
  let ?u = "uploadFile (\<lambda>x. x) (Some ''user-1'') example_props guest_env example_file
              (fresh idle_state)"
  have f: "fst ?u = Resolved"
    by (simp add: uploadFile_valid[OF example_authenticated example_valid] try_catch_resolved)
  have h: "handleFileSelect (\<lambda>x. x) example_render guest_env (Some [example_file])
             (fresh idle_state) = (None, snd ?u)"
  proof -
    from f obtain r where u: "?u = (Resolved, r)" by (cases ?u) simp
    show ?thesis by (simp add: handleFileSelect_first example_render_fields u)
  qed
  show ?thesis
    unfolding h
    by (simp add: example_render_fields guest_session
        enhanced_calls_ok[OF example_authenticated example_valid guest_compressImage
          guest_env_fields(1,2)]
        success_ui[OF example_authenticated example_valid guest_compressImage
          guest_env_fields(1,2)]
        guest_key ratio_50_exceeds example_props_fields guest_env_fields)
qed

section \<open>Deleting a file\<close>





end
